theory Spec2Isabelle
  imports Complex_Main "HOL-Library.Log_Nat" "HOL-Library.Word"
begin

section \<open>The fleet command client of phenix (package mm, minimega.go)\<close>

text \<open>
  The Go package \<^verbatim>\<open>mm\<close> drives minimega through the helper package \<^verbatim>\<open>mmcli\<close>.
  Strings are byte sequences, a Go \<^verbatim>\<open>int\<close> is an \<^typ>\<open>int\<close> (all numbers that occur are
  far from the 64-bit bounds, except in \<^verbatim>\<open>strconv.Atoi\<close>, whose clamping is written out, and
  the expected count of \<^verbatim>\<open>GetLaunchProgress\<close>, which is a 64-bit word read as a signed
  number), a \<^verbatim>\<open>map[string]string\<close> row is a map whose missing keys read as the empty
  string.
\<close>

subsection \<open>Errors\<close>

text \<open>
  The three sentinels are package variables compared by identity. \<open>Errorf\<close> is
  \<^verbatim>\<open>fmt.Errorf\<close> of a plain message, \<open>Wrapf m e\<close> is \<^verbatim>\<open>fmt.Errorf(m + ": %w", e)\<close>.
  \<open>Canceled\<close> and \<open>DeadlineExceeded\<close> are the two values of \<^verbatim>\<open>ctx.Err()\<close>.
  \<open>Panic_index_out_of_range\<close> is not an error value: it stands for the run-time panic of
  an index expression past the end of a slice.
\<close>

datatype error =
    ErrCaptureExists
  | ErrNoCaptures
  | ErrC2ClientNotActive
  | Errorf string
  | Wrapf string error
  | Canceled
  | DeadlineExceeded
  | Panic_index_out_of_range

subsection \<open>Floating-point numbers\<close>

text \<open>
  A \<^verbatim>\<open>float64\<close> is a binary64 number of IEEE 754: a finite value, the negative zero, an
  infinity or NaN. A finite value is the rational it denotes, \<open>m * 2^e\<close> with \<open>\<bar>m\<bar> < 2^53\<close>
  and \<open>- 1074 \<le> e \<le> 971\<close>; \<open>Finite 0\<close> is the positive zero.
\<close>

datatype float64 = Finite rat | NegZero | PosInf | NegInf | NaN

text \<open>
  The exponent of the binade of a positive rational: the \<open>k\<close> with \<open>2^k \<le> x < 2^(k+1)\<close>,
  and \<open>- 1022\<close> below the normal numbers, where the spacing no longer shrinks.
\<close>

definition float_exp :: "rat \<Rightarrow> int" where
  "float_exp x =
     (case quotient_of x of (p, q) \<Rightarrow>
        let d = bitlen p - bitlen q;
            k = (if 2 powi d \<le> x then d else d - 1)
        in max k (- 1022))"

text \<open>The nearest integer, the even one of two that are equally near.\<close>

definition roundEven :: "rat \<Rightarrow> int" where
  "roundEven r =
     (let f = \<lfloor>r\<rfloor>; d = r - of_int f
      in if d < 1 / 2 then f else if 1 / 2 < d then f + 1 else if even f then f else f + 1)"

text \<open>
  A positive rational rounded to 53 significant bits (to a multiple of \<open>2^(- 1074)\<close> below
  the normal numbers), to nearest and ties to even, with no bound on the exponent.
\<close>

definition roundPos :: "rat \<Rightarrow> rat" where
  "roundPos x = (let u = 2 powi (float_exp x - 52) in of_int (roundEven (x / u)) * u)"

text \<open>
  The \<^verbatim>\<open>float64\<close> that an operation returns for the exact result \<open>x\<close>, in the rounding mode
  of Go (to nearest, ties to even): a result that rounds to \<open>2^1024\<close> or more overflows to
  an infinity, one that rounds to 0 becomes the zero of its sign.
\<close>

definition float64_round :: "rat \<Rightarrow> float64" where
  "float64_round x =
     (if x = 0 then Finite 0
      else let m = roundPos \<bar>x\<bar>
           in if 2 ^ 1024 \<le> m then (if 0 < x then PosInf else NegInf)
              else if m = 0 then (if 0 < x then Finite 0 else NegZero)
              else Finite (if 0 < x then m else - m))"

text \<open>The conversion \<^verbatim>\<open>float64(n)\<close> of an integer.\<close>

definition float64_of_int :: "int \<Rightarrow> float64" where
  "float64_of_int n = float64_round (of_int n)"

definition isZero :: "float64 \<Rightarrow> bool" where
  "isZero a \<longleftrightarrow> a = Finite 0 \<or> a = NegZero"

definition isInf :: "float64 \<Rightarrow> bool" where
  "isInf a \<longleftrightarrow> a = PosInf \<or> a = NegInf"

definition signbit :: "float64 \<Rightarrow> bool" where
  "signbit a = (case a of Finite r \<Rightarrow> r < 0 | NegZero \<Rightarrow> True | NegInf \<Rightarrow> True | PosInf \<Rightarrow> False | NaN \<Rightarrow> False)"

definition float64_val :: "float64 \<Rightarrow> rat" where
  "float64_val a = (case a of Finite r \<Rightarrow> r | _ \<Rightarrow> 0)"

definition zero_of :: "bool \<Rightarrow> float64" where
  "zero_of neg = (if neg then NegZero else Finite 0)"

definition inf_of :: "bool \<Rightarrow> float64" where
  "inf_of neg = (if neg then NegInf else PosInf)"

text \<open>
  The quotient \<^verbatim>\<open>a / b\<close> of two \<^verbatim>\<open>float64\<close>. Dividing by zero does not panic: it gives NaN
  for a zero dividend and an infinity otherwise. The sign of a zero or an infinity is
  negative when the signs of the operands differ.
\<close>

definition float64_quo :: "float64 \<Rightarrow> float64 \<Rightarrow> float64" where
  "float64_quo a b =
     (if a = NaN \<or> b = NaN then NaN
      else if isInf a then (if isInf b then NaN else inf_of (signbit a \<noteq> signbit b))
      else if isInf b then zero_of (signbit a \<noteq> signbit b)
      else if isZero b then (if isZero a then NaN else inf_of (signbit a \<noteq> signbit b))
      else if isZero a then zero_of (signbit a \<noteq> signbit b)
      else float64_round (float64_val a / float64_val b))"

text \<open>
  The sum \<^verbatim>\<open>a + b\<close> of two \<^verbatim>\<open>float64\<close>. An exact sum of 0 is the positive zero, unless
  both operands are the negative zero.
\<close>

definition float64_add :: "float64 \<Rightarrow> float64 \<Rightarrow> float64" where
  "float64_add a b =
     (if a = NaN \<or> b = NaN then NaN
      else if isInf a then (if isInf b \<and> a \<noteq> b then NaN else a)
      else if isInf b then b
      else if float64_val a + float64_val b = 0
      then (if a = NegZero \<and> b = NegZero then NegZero else Finite 0)
      else float64_round (float64_val a + float64_val b))"

subsection \<open>Package strings\<close>

definition strings_HasPrefix :: "string \<Rightarrow> string \<Rightarrow> bool" where
  "strings_HasPrefix s p \<longleftrightarrow> take (length p) s = p"

definition strings_HasSuffix :: "string \<Rightarrow> string \<Rightarrow> bool" where
  "strings_HasSuffix s p \<longleftrightarrow> length p \<le> length s \<and> drop (length s - length p) s = p"

definition strings_TrimPrefix :: "string \<Rightarrow> string \<Rightarrow> string" where
  "strings_TrimPrefix s p = (if strings_HasPrefix s p then drop (length p) s else s)"

definition strings_TrimSuffix :: "string \<Rightarrow> string \<Rightarrow> string" where
  "strings_TrimSuffix s p = (if strings_HasSuffix s p then take (length s - length p) s else s)"

text \<open>\<^verbatim>\<open>strings.Index\<close>: the position of the leftmost occurrence.\<close>

fun strings_Index :: "string \<Rightarrow> string \<Rightarrow> nat option" where
  "strings_Index [] sep = (if sep = [] then Some 0 else None)"
| "strings_Index (c # cs) sep =
     (if strings_HasPrefix (c # cs) sep then Some 0
      else map_option Suc (strings_Index cs sep))"

definition strings_Contains :: "string \<Rightarrow> string \<Rightarrow> bool" where
  "strings_Contains s sub \<longleftrightarrow> strings_Index s sub \<noteq> None"

lemma strings_HasPrefix_length: "strings_HasPrefix s p \<Longrightarrow> length p \<le> length s"
proof -
  assume "strings_HasPrefix s p"
  then have "length (take (length p) s) = length p"
    by (simp add: strings_HasPrefix_def)
  then show ?thesis by simp
qed

lemma strings_Index_bound:
  "strings_Index s sep = Some m \<Longrightarrow> m + length sep \<le> length s"
proof (induction s arbitrary: m)
  case Nil
  then show ?case by (simp split: if_splits)
next
  case (Cons c cs)
  show ?case
  proof (cases "strings_HasPrefix (c # cs) sep")
    case True
    with Cons.prems strings_HasPrefix_length[OF True] show ?thesis by simp
  next
    case False
    with Cons.prems obtain k where "strings_Index cs sep = Some k" "m = Suc k"
      by auto
    with Cons.IH show ?thesis by fastforce
  qed
qed

text \<open>
  \<^verbatim>\<open>strings.Split(s, sep)\<close>: cut at the leftmost occurrences, one after the other. Every
  separator of the program is a non-empty literal; for the empty separator Go explodes
  the string into UTF-8 sequences, here into bytes.
\<close>

function strings_Split :: "string \<Rightarrow> string \<Rightarrow> string list" where
  "strings_Split s sep =
     (if sep = [] then map (\<lambda>c. [c]) s
      else case strings_Index s sep of
             None \<Rightarrow> [s]
           | Some m \<Rightarrow> take m s # strings_Split (drop (m + length sep) s) sep)"
  by pat_completeness auto
termination
proof (relation "measure (\<lambda>(s, sep). length s)")
  show "wf (measure (\<lambda>(s, sep). length s))" by simp
next
  fix s sep :: string and m
  assume ne: "sep \<noteq> []" and ix: "strings_Index s sep = Some m"
  have le: "m + length sep \<le> length s"
    by (rule strings_Index_bound[OF ix])
  from ne have pos: "0 < length sep"
    by simp
  from le pos have "length s - (m + length sep) < length s"
    by linarith
  then show "((drop (m + length sep) s, sep), (s, sep)) \<in> measure (\<lambda>(s, sep). length s)"
    by simp
qed

declare strings_Split.simps [simp del]

fun strings_Join :: "string list \<Rightarrow> string \<Rightarrow> string" where
  "strings_Join [] sep = []"
| "strings_Join [x] sep = x"
| "strings_Join (x # y # ys) sep = x @ sep @ strings_Join (y # ys) sep"

text \<open>
  White space. \<open>asciiSpace\<close> is the table of package strings: tab, line feed, vertical
  tab, form feed, carriage return, space. \<open>RuneSelf\<close> (0x80) is the first byte that is
  not a whole character.
\<close>

definition asciiSpace :: "char \<Rightarrow> bool" where
  "asciiSpace c \<longleftrightarrow>
     c = CHR 0x09 \<or> c = CHR 0x0A \<or> c = CHR 0x0B \<or> c = CHR 0x0C \<or> c = CHR 0x0D \<or> c = CHR 0x20"

definition belowRuneSelf :: "char \<Rightarrow> bool" where
  "belowRuneSelf c \<longleftrightarrow> (of_char c :: nat) < 128"

text \<open>
  \<^verbatim>\<open>strings.TrimSpace\<close> and \<^verbatim>\<open>strings.Fields\<close> run a byte loop on ASCII input and hand
  over to the Unicode routines \<^verbatim>\<open>TrimFunc(_, unicode.IsSpace)\<close>,
  \<^verbatim>\<open>TrimRightFunc(_, unicode.IsSpace)\<close> and \<^verbatim>\<open>FieldsFunc(_, unicode.IsSpace)\<close> at the
  first byte from \<open>RuneSelf\<close> on. The byte loops are written out; the three Unicode
  routines are parameters of the model.
\<close>

record unicode =
  TrimFunc_IsSpace :: "string \<Rightarrow> string"
  TrimRightFunc_IsSpace :: "string \<Rightarrow> string"
  FieldsFunc_IsSpace :: "string \<Rightarrow> string list"

text \<open>The second loop of \<^verbatim>\<open>TrimSpace\<close>, from the end; its argument is the reversed string.\<close>

fun trimSpace_stop :: "unicode \<Rightarrow> string \<Rightarrow> string" where
  "trimSpace_stop u [] = []"
| "trimSpace_stop u (c # cs) =
     (if \<not> belowRuneSelf c then TrimRightFunc_IsSpace u (rev (c # cs))
      else if asciiSpace c then trimSpace_stop u cs
      else rev (c # cs))"

fun strings_TrimSpace :: "unicode \<Rightarrow> string \<Rightarrow> string" where
  "strings_TrimSpace u [] = []"
| "strings_TrimSpace u (c # cs) =
     (if \<not> belowRuneSelf c then TrimFunc_IsSpace u (c # cs)
      else if asciiSpace c then strings_TrimSpace u cs
      else trimSpace_stop u (rev (c # cs)))"

text \<open>The ASCII path of \<^verbatim>\<open>Fields\<close>; \<open>w\<close> is the field being read, reversed.\<close>

fun fieldsASCII :: "string \<Rightarrow> string \<Rightarrow> string list" where
  "fieldsASCII w [] = (if w = [] then [] else [rev w])"
| "fieldsASCII w (c # cs) =
     (if asciiSpace c then (if w = [] then fieldsASCII [] cs else rev w # fieldsASCII [] cs)
      else fieldsASCII (c # w) cs)"

definition strings_Fields :: "unicode \<Rightarrow> string \<Rightarrow> string list" where
  "strings_Fields u s =
     (if list_all belowRuneSelf s then fieldsASCII [] s else FieldsFunc_IsSpace u s)"

subsection \<open>The list fields of a vm-info row (GetVMInfo, lines 135 to 151)\<close>

text \<open>
  The same four statements decode the \<^verbatim>\<open>vlan\<close> and the \<^verbatim>\<open>tap\<close> column. The result is
  the new value of \<^verbatim>\<open>vm.Networks\<close> (\<^verbatim>\<open>vm.Taps\<close>): it stays \<^verbatim>\<open>nil\<close>, the empty list, when
  nothing is left between the brackets.
\<close>

definition decodeList :: "unicode \<Rightarrow> string \<Rightarrow> string list" where
  "decodeList u field =
     (let s = strings_TrimPrefix field ''['';
          s = strings_TrimSuffix s '']'';
          s = strings_TrimSpace u s
      in if s \<noteq> [] then strings_Split s '', '' else [])"

text \<open>
  Modelled from the spec: the encoder is minimega's, not this repository's. The spec
  gives the format: bracketed, comma-space-separated, \<^verbatim>\<open>[eth0, eth1]\<close>.
\<close>

definition encodeList :: "string list \<Rightarrow> string" where
  "encodeList xs = ''['' @ strings_Join xs '', '' @ '']''"

text \<open>An identifier-safe string: not empty, of ASCII letters, digits and underscores.\<close>

definition identChar :: "char \<Rightarrow> bool" where
  "identChar c \<longleftrightarrow>
     (let n = (of_char c :: nat)
      in (48 \<le> n \<and> n \<le> 57) \<or> (65 \<le> n \<and> n \<le> 90) \<or> (97 \<le> n \<and> n \<le> 122) \<or> n = 95)"

definition identifier_safe :: "string \<Rightarrow> bool" where
  "identifier_safe s \<longleftrightarrow> s \<noteq> [] \<and> list_all identChar s"

subsection \<open>Packages strconv, fmt, filepath and time\<close>

definition isDigit :: "char \<Rightarrow> bool" where
  "isDigit c \<longleftrightarrow> 48 \<le> (of_char c :: nat) \<and> (of_char c :: nat) \<le> 57"

definition digitVal :: "char \<Rightarrow> int" where
  "digitVal c = of_char c - 48"

datatype NumError = ErrSyntax | ErrRange

text \<open>
  The digit loop of \<^verbatim>\<open>strconv.ParseUint(s, 10, 64)\<close>: a byte that is no digit is a syntax
  error, a value past \<open>2^64 - 1\<close> a range error, whichever comes first from the left.
\<close>

fun ParseUint_loop :: "int \<Rightarrow> string \<Rightarrow> NumError + int" where
  "ParseUint_loop n [] = Inr n"
| "ParseUint_loop n (c # cs) =
     (if \<not> isDigit c then Inl ErrSyntax
      else if 1844674407370955162 \<le> n then Inl ErrRange
      else (let n1 = n * 10 + digitVal c
            in if 18446744073709551615 < n1 then Inl ErrRange else ParseUint_loop n1 cs))"

text \<open>
  \<^verbatim>\<open>strconv.Atoi\<close> on a 64-bit platform, with the value it returns beside each error: 0
  with a syntax error, the nearest bound with a range error. (Its fast path for short
  strings computes the same values as \<^verbatim>\<open>ParseInt(s, 10, 0)\<close>, which is written here.)
\<close>

definition strconv_Atoi :: "string \<Rightarrow> int \<times> NumError option" where
  "strconv_Atoi s0 =
     (if s0 = [] then (0, Some ErrSyntax)
      else
        let neg = (hd s0 = CHR ''-'');
            s = (if hd s0 = CHR ''+'' \<or> hd s0 = CHR ''-'' then tl s0 else s0)
        in if s = [] then (0, Some ErrSyntax)
           else case ParseUint_loop 0 s of
                  Inl ErrSyntax \<Rightarrow> (0, Some ErrSyntax)
                | Inl ErrRange \<Rightarrow>
                    (if neg then - 9223372036854775808 else 9223372036854775807, Some ErrRange)
                | Inr un \<Rightarrow>
                    if \<not> neg \<and> 9223372036854775808 \<le> un
                    then (9223372036854775807, Some ErrRange)
                    else if neg \<and> 9223372036854775808 < un
                    then (- 9223372036854775808, Some ErrRange)
                    else (if neg then - un else un, None))"

text \<open>The verb \<^verbatim>\<open>%d\<close> of \<^verbatim>\<open>fmt.Sprintf\<close> for an int.\<close>

fun fmt_nat :: "nat \<Rightarrow> string" where
  "fmt_nat n =
     (if n < 10 then [''0123456789'' ! n]
      else fmt_nat (n div 10) @ [''0123456789'' ! (n mod 10)])"

declare fmt_nat.simps [simp del]

definition fmt_d :: "int \<Rightarrow> string" where
  "fmt_d i = (if i < 0 then CHR ''-'' # fmt_nat (nat (- i)) else fmt_nat (nat i))"

text \<open>Package filepath on Unix: the separator is the slash and there is no volume name.\<close>

definition filepath_IsAbs :: "string \<Rightarrow> bool" where
  "filepath_IsAbs path \<longleftrightarrow> strings_HasPrefix path ''/''"

definition filepath_Base :: "string \<Rightarrow> string" where
  "filepath_Base path =
     (if path = [] then ''.''
      else
        let p = rev (dropWhile (\<lambda>c. c = CHR ''/'') (rev path));
            p = rev (takeWhile (\<lambda>c. c \<noteq> CHR ''/'') (rev p))
        in if p = [] then ''/'' else p)"

text \<open>
  \<^verbatim>\<open>Duration.Seconds()\<close> of a duration in nanoseconds: the whole seconds and the remaining
  nanoseconds (Go's \<^verbatim>\<open>/\<close> and \<^verbatim>\<open>%\<close> truncate toward zero) are converted apart, and the
  sum \<^verbatim>\<open>float64(sec) + float64(nsec)/1e9\<close> is returned.
\<close>

definition Seconds :: "int \<Rightarrow> float64" where
  "Seconds d =
     (let sec = (if 0 \<le> d then d div 1000000000 else - ((- d) div 1000000000));
          nsec = d - sec * 1000000000
      in float64_add (float64_of_int sec) (float64_quo (float64_of_int nsec) (Finite 1000000000)))"

subsection \<open>The command channel: package mmcli and the other missing parts\<close>

text \<open>
  A row of a tabular response is a \<^verbatim>\<open>map[string]string\<close>; reading a key that is not
  there gives the empty string.
\<close>

type_synonym row = "string \<rightharpoonup> string"

definition row_get :: "row \<Rightarrow> string \<Rightarrow> string" where
  "row_get r k = (case r k of None \<Rightarrow> [] | Some v \<Rightarrow> v)"

text \<open>
  A command as the client fills it in. An absent namespace is the empty string, absent
  columns and filters are the empty list (the zero values of the Go struct).
\<close>

record mmcli_Command =
  Namespace :: string
  Command :: string
  Columns :: "string list"
  Filters :: "string list"

definition NewCommand :: mmcli_Command where
  "NewCommand = \<lparr>Namespace = [], Command = [], Columns = [], Filters = []\<rparr>"

definition NewNamespacedCommand :: "string \<Rightarrow> mmcli_Command" where
  "NewNamespacedCommand namespace = NewCommand\<lparr>Namespace := namespace\<rparr>"

text \<open>One response of a response group of \<^verbatim>\<open>mmcli.Run\<close>, with the two fields the client reads.\<close>

record mmcli_Response =
  Response :: string
  Error :: string

text \<open>
  Package \<^verbatim>\<open>mmcli\<close>, package \<^verbatim>\<open>common\<close> and the controller behind them are not part of
  the file; they are the parameter \<open>env\<close> of every function below. The controller is
  deterministic but may answer from its state: each helper gets the history, the
  commands issued so far (oldest first), and the command. \<open>ErrorResponse\<close> is
  \<^verbatim>\<open>mmcli.ErrorResponse(mmcli.Run(cmd))\<close> and \<open>SingleResponse\<close> is
  \<^verbatim>\<open>mmcli.SingleResponse(mmcli.Run(cmd))\<close>. Every function below takes the history and
  returns it extended by the commands it issued.

  Of the standard library, \<^verbatim>\<open>filepath.Dir\<close>, \<^verbatim>\<open>time.ParseDuration\<close> (in nanoseconds),
  \<^verbatim>\<open>strconv.ParseFloat\<close> (the value it returns, the error being discarded) and the verb
  \<^verbatim>\<open>%.1f\<close> are parameters too; nothing below looks into their results.
\<close>

record env =
  Run :: "mmcli_Command list \<Rightarrow> mmcli_Command \<Rightarrow> mmcli_Response list list"
  RunTabular :: "mmcli_Command list \<Rightarrow> mmcli_Command \<Rightarrow> row list"
  ErrorResponse :: "mmcli_Command list \<Rightarrow> mmcli_Command \<Rightarrow> error option"
  SingleResponse :: "mmcli_Command list \<Rightarrow> mmcli_Command \<Rightarrow> error + string"
  PhenixBase :: string
  TrimHostnameSuffixes :: "string \<Rightarrow> string"
  Unicode :: unicode
  filepath_Dir :: "string \<Rightarrow> string"
  time_ParseDuration :: "string \<Rightarrow> int option"
  strconv_ParseFloat :: "string \<Rightarrow> float64"
  fmt_f1 :: "float64 \<Rightarrow> string"

text \<open>
  The options a call was built with (the result of \<^verbatim>\<open>NewOptions(opts...)\<close>), with the
  fields this file reads; field \<open>o_ns\<close> is \<^verbatim>\<open>o.ns\<close>, and so on.
\<close>

record Options =
  o_ns :: string
  o_vm :: string
  o_cpu :: int
  o_mem :: int
  o_disk :: string
  o_injectPart :: int
  o_injects :: "string list"
  o_captureIface :: int
  o_captureFile :: string

subsection \<open>Domain records\<close>

record Capture =
  Capture_VM :: string
  Capture_Interface :: int
  Capture_Filepath :: string

record VM =
  VM_Host :: string
  VM_Name :: string
  VM_Running :: bool
  VM_Networks :: "string list"
  VM_Taps :: "string list"
  VM_Captures :: "Capture list"
  VM_Uptime :: float64
  VM_RAM :: int
  VM_CPUs :: int
  VM_Disk :: string

record Host =
  Host_Name :: string
  Host_CPUs :: int
  Host_CPUCommit :: int
  Host_Load :: "string list"
  Host_MemUsed :: int
  Host_MemTotal :: int
  Host_MemCommit :: int
  Host_VMs :: int
  Host_Tx :: float64
  Host_Rx :: float64
  Host_Bandwidth :: string
  Host_NetCommit :: int
  Host_Uptime :: float64
  Host_Schedulable :: bool
  Host_Headnode :: bool

subsection \<open>Small operations: flush, inject, ClearNamespace, KillVM\<close>

text \<open>
  Go returns a \<^verbatim>\<open>nil\<close> error or an error; a function that issues commands returns this
  and the history. Two idioms recur. \<open>issue env cmd msg h\<close> is
  \<^verbatim>\<open>if err := mmcli.ErrorResponse(mmcli.Run(cmd)); err != nil { return fmt.Errorf(msg + ": %w", err) }\<close>
  and \<open>andThen r k\<close> goes on with \<open>k\<close> unless \<open>r\<close> has returned an error.
\<close>

definition issue ::
  "env \<Rightarrow> mmcli_Command \<Rightarrow> string \<Rightarrow> mmcli_Command list \<Rightarrow> error option \<times> mmcli_Command list" where
  "issue env cmd msg h = (map_option (Wrapf msg) (ErrorResponse env h cmd), h @ [cmd])"

definition andThen ::
  "error option \<times> mmcli_Command list \<Rightarrow> (mmcli_Command list \<Rightarrow> error option \<times> mmcli_Command list)
     \<Rightarrow> error option \<times> mmcli_Command list" where
  "andThen r k = (case r of (Some err, h) \<Rightarrow> (Some err, h) | (None, h) \<Rightarrow> k h)"

definition flush :: "env \<Rightarrow> string \<Rightarrow> mmcli_Command list \<Rightarrow> error option \<times> mmcli_Command list" where
  "flush env ns h =
     issue env ((NewNamespacedCommand ns)\<lparr>Command := ''vm flush''\<rparr>) (''flushing VMs in namespace '' @ ns) h"

definition inject ::
  "env \<Rightarrow> string \<Rightarrow> int \<Rightarrow> string list \<Rightarrow> mmcli_Command list \<Rightarrow> error option \<times> mmcli_Command list" where
  "inject env disk part injects h =
     (let files = strings_Join injects '' ''
      in issue env (NewCommand\<lparr>Command := ''disk inject '' @ disk @ '':'' @ fmt_d part @ '' files '' @ files\<rparr>)
           (''injecting files into disk '' @ disk) h)"

definition ClearNamespace :: "env \<Rightarrow> string \<Rightarrow> mmcli_Command list \<Rightarrow> error option \<times> mmcli_Command list" where
  "ClearNamespace env ns h =
     issue env (NewCommand\<lparr>Command := ''clear namespace '' @ ns\<rparr>) ''clearing minimega namespace'' h"

definition KillVM :: "env \<Rightarrow> Options \<Rightarrow> mmcli_Command list \<Rightarrow> error option \<times> mmcli_Command list" where
  "KillVM env opts h =
     andThen (issue env ((NewNamespacedCommand (o_ns opts))\<lparr>Command := ''vm kill '' @ o_vm opts\<rparr>)
                (''killing VM '' @ o_vm opts @ '' in namespace '' @ o_ns opts) h)
       (flush env (o_ns opts))"

subsection \<open>GetLaunchProgress\<close>

text \<open>
  \<^verbatim>\<open>regexp.MustCompile(`Names: (.*)`).FindAllStringSubmatch(s, -1)\<close>, as the list of the
  groups \<^verbatim>\<open>m[1]\<close>: the dot does not match a line feed and the star is greedy, so a match
  runs from the leftmost \<^verbatim>\<open>Names: \<close> to the end of its line, and the search goes on from
  there.
\<close>

function regexp_Names :: "string \<Rightarrow> string list" where
  "regexp_Names s =
     (if s = [] then []
      else if strings_HasPrefix s ''Names: ''
      then (let rest = drop 7 s
            in takeWhile (\<lambda>c. c \<noteq> CHR 0x0A) rest # regexp_Names (dropWhile (\<lambda>c. c \<noteq> CHR 0x0A) rest))
      else regexp_Names (tl s))"
  by pat_completeness auto
termination
proof (relation "measure length")
  show "wf (measure length)" by simp
next
  fix s :: string and rest
  assume ne: "s \<noteq> []" and pre: "strings_HasPrefix s ''Names: ''" and r: "rest = drop 7 s"
  have "length (dropWhile (\<lambda>c. c \<noteq> CHR 0x0A) rest) \<le> length rest"
    by (rule length_dropWhile_le)
  moreover from ne r have "length rest < length s"
    by (cases s) simp_all
  ultimately show "(dropWhile (\<lambda>c. c \<noteq> CHR 0x0A) rest, s) \<in> measure length"
    by simp
next
  fix s :: string
  assume "s \<noteq> []"
  then show "(tl s, s) \<in> measure length"
    by (cases s) simp_all
qed

declare regexp_Names.simps [simp del]

text \<open>The first loop: the names queued in the responses that carry no error.\<close>

definition queuedNames :: "mmcli_Response list list \<Rightarrow> nat" where
  "queuedNames resps =
     sum_list (map (\<lambda>resp. if Error resp \<noteq> [] then 0
                          else sum_list (map (\<lambda>m. length (strings_Split m '','')) (regexp_Names (Response resp))))
                   (concat resps))"

text \<open>The second loop: the rows whose state is \<^verbatim>\<open>BUILDING\<close>.\<close>

definition buildingRows :: "row list \<Rightarrow> nat" where
  "buildingRows status = length (filter (\<lambda>s. row_get s ''state'' = ''BUILDING'') status)"

text \<open>
  The result is the pair that Go returns: the fraction and the error (always \<^verbatim>\<open>nil\<close>).
  The last line converts both counts and divides, \<^verbatim>\<open>float64(queued) / float64(expected)\<close>.
\<close>

definition GetLaunchProgress ::
  "env \<Rightarrow> string \<Rightarrow> 64 word \<Rightarrow> mmcli_Command list \<Rightarrow> (float64 \<times> error option) \<times> mmcli_Command list" where
  "GetLaunchProgress env ns expected h =
     (let cmd = (NewNamespacedCommand ns)\<lparr>Command := ''ns queue''\<rparr>;
          queued = queuedNames (Run env h cmd);
          h1 = h @ [cmd]
      in if queued = 0
         then (let cmd2 = cmd\<lparr>Command := ''vm info'', Columns := [''state'']\<rparr>;
                   status = RunTabular env h1 cmd2;
                   h2 = h1 @ [cmd2]
               in if status = [] then ((Finite 0, None), h2)
                  else ((float64_quo (float64_of_int (int (buildingRows status)))
                                     (float64_of_int (sint expected)), None), h2))
         else ((float64_quo (float64_of_int (int queued)) (float64_of_int (sint expected)), None), h1))"

text \<open>
  The count that the function divides: the value of the variable \<^verbatim>\<open>queued\<close> at the
  return (0 at the early return).
\<close>

definition launchQueued :: "env \<Rightarrow> string \<Rightarrow> mmcli_Command list \<Rightarrow> nat" where
  "launchQueued env ns h =
     (let cmd = (NewNamespacedCommand ns)\<lparr>Command := ''ns queue''\<rparr>;
          queued = queuedNames (Run env h cmd)
      in if queued = 0
         then buildingRows (RunTabular env (h @ [cmd]) (cmd\<lparr>Command := ''vm info'', Columns := [''state'']\<rparr>))
         else queued)"

text \<open>The early return is taken: nothing is queued and the VM table is empty.\<close>

definition launchEarly :: "env \<Rightarrow> string \<Rightarrow> mmcli_Command list \<Rightarrow> bool" where
  "launchEarly env ns h =
     (let cmd = (NewNamespacedCommand ns)\<lparr>Command := ''ns queue''\<rparr>
      in queuedNames (Run env h cmd) = 0
         \<and> RunTabular env (h @ [cmd]) (cmd\<lparr>Command := ''vm info'', Columns := [''state'']\<rparr>) = [])"

subsection \<open>RedeployVM\<close>

text \<open>
  Every step assigns \<^verbatim>\<open>cmd.Command\<close> of the one namespaced command and runs it; the
  lookup of the disk configuration also sets the columns and the filter and clears them
  again. \<open>inject\<close> builds a command of its own, without namespace.
\<close>

text \<open>The block \<^verbatim>\<open>if o.disk != ""\<close> (lines 322 to 366), entered with a disk given.\<close>

definition redeployDisk :: "env \<Rightarrow> Options \<Rightarrow> mmcli_Command list \<Rightarrow> error option \<times> mmcli_Command list" where
  "redeployDisk env opts h6 =
    (let cmd = NewNamespacedCommand (o_ns opts);
         vm_in_ns = o_vm opts @ '' in namespace '' @ o_ns opts
     in case (if o_injects opts = [] then (Inr (o_disk opts), h6)
              else
                (let q = cmd\<lparr>Command := ''vm config disk'', Columns := [''disks''],
                               Filters := [''name='' @ o_vm opts]\<rparr>;
                     config = RunTabular env h6 q; h7 = h6 @ [q]
                 in if config = []
                    then (Inl (Errorf (''disk config not found for VM '' @ vm_in_ns)), h7)
                    else
                      (let status = hd config;
                           disk = filepath_Base (row_get status ''disks'')
                       in if strings_Contains disk ''_snapshot''
                          then
                            (case andThen (issue env (cmd\<lparr>Command := ''disk snapshot '' @ o_disk opts
                                                         @ '' '' @ disk\<rparr>)
                                             (''snapshotting disk for VM '' @ vm_in_ns) h7)
                                    (inject env disk (o_injectPart opts) (o_injects opts)) of
                               (Some err, h9) \<Rightarrow> (Inl err, h9)
                             | (None, h9) \<Rightarrow> (Inr disk, h9))
                          else (Inr (o_disk opts), h7)))) of
          (Inl err, h9) \<Rightarrow> (Some err, h9)
        | (Inr disk, h9) \<Rightarrow>
            issue env (cmd\<lparr>Command := ''vm config disk '' @ disk\<rparr>)
              (''configuring disk for VM '' @ vm_in_ns) h9)"

definition RedeployVM :: "env \<Rightarrow> Options \<Rightarrow> mmcli_Command list \<Rightarrow> error option \<times> mmcli_Command list" where
  "RedeployVM env opts h0 =
    (let cmd = NewNamespacedCommand (o_ns opts);
         vm_in_ns = o_vm opts @ '' in namespace '' @ o_ns opts
     in
     andThen (issue env (cmd\<lparr>Command := ''vm config clone '' @ o_vm opts\<rparr>)
                (''cloning VM '' @ vm_in_ns) h0) (\<lambda>h1.
     andThen (issue env (cmd\<lparr>Command := ''clear vm config migrate''\<rparr>)
                (''clearing config for VM '' @ vm_in_ns) h1) (\<lambda>h2.
     andThen (issue env (cmd\<lparr>Command := ''vm kill '' @ o_vm opts\<rparr>)
                (''killing VM '' @ vm_in_ns) h2) (\<lambda>h3.
     andThen (flush env (o_ns opts) h3) (\<lambda>h4.
     andThen (if o_cpu opts \<noteq> 0
              then issue env (cmd\<lparr>Command := ''vm config vcpus '' @ fmt_d (o_cpu opts)\<rparr>)
                     (''configuring VCPUs for VM '' @ vm_in_ns) h4
              else (None, h4)) (\<lambda>h5.
     andThen (if o_mem opts \<noteq> 0
              then issue env (cmd\<lparr>Command := ''vm config mem '' @ fmt_d (o_mem opts)\<rparr>)
                     (''configuring memory for VM '' @ vm_in_ns) h5
              else (None, h5)) (\<lambda>h6.
     andThen (if o_disk opts \<noteq> [] then redeployDisk env opts h6 else (None, h6)) (\<lambda>h10.
     andThen (issue env (cmd\<lparr>Command := ''vm launch kvm '' @ o_vm opts\<rparr>)
                (''scheduling VM '' @ vm_in_ns) h10) (\<lambda>h11.
     andThen (issue env (cmd\<lparr>Command := ''vm launch''\<rparr>)
                (''launching scheduled VMs in namespace '' @ o_ns opts) h11) (\<lambda>h12.
     issue env (cmd\<lparr>Command := ''vm start '' @ o_vm opts\<rparr>)
       (''starting VM '' @ vm_in_ns) h12))))))))))"

subsection \<open>Captures\<close>

text \<open>
  The loop of \<^verbatim>\<open>GetExperimentCaptures\<close>. The interface column is split at the colon and
  element 1 is read without a check: a cell without colon panics.
\<close>

fun captureRows :: "row list \<Rightarrow> error + Capture list" where
  "captureRows [] = Inr []"
| "captureRows (row # rows) =
     (let iface = strings_Split (row_get row ''interface'') '':''
      in if length iface < 2 then Inl Panic_index_out_of_range
         else case captureRows rows of
                Inl e \<Rightarrow> Inl e
              | Inr captures \<Rightarrow>
                  Inr (\<lparr>Capture_VM = iface ! 0,
                        Capture_Interface = fst (strconv_Atoi (iface ! 1)),
                        Capture_Filepath = row_get row ''path''\<rparr> # captures))"

definition GetExperimentCaptures ::
  "env \<Rightarrow> string \<Rightarrow> mmcli_Command list \<Rightarrow> (error + Capture list) \<times> mmcli_Command list" where
  "GetExperimentCaptures env ns h =
     (let cmd = (NewNamespacedCommand ns)\<lparr>Command := ''capture'', Columns := [''interface'', ''path'']\<rparr>
      in (captureRows (RunTabular env h cmd), h @ [cmd]))"

text \<open>Of the options, \<^verbatim>\<open>GetVMCaptures\<close> reads the namespace and the VM name.\<close>

definition GetVMCaptures ::
  "env \<Rightarrow> string \<Rightarrow> string \<Rightarrow> mmcli_Command list \<Rightarrow> (error + Capture list) \<times> mmcli_Command list" where
  "GetVMCaptures env ns vm h =
     (case GetExperimentCaptures env ns h of
        (Inl e, h') \<Rightarrow> (Inl e, h')
      | (Inr captures, h') \<Rightarrow> (Inr (filter (\<lambda>capture. Capture_VM capture = vm) captures), h'))"

text \<open>
  The capture table, row by row, as the loop of \<^verbatim>\<open>GetExperimentCaptures\<close> reads it. A row
  decodes when its interface cell has the two parts that the loop indexes. It reports a
  capture on interface \<open>iface\<close> of \<open>vm\<close> when the first part is \<open>vm\<close> and \<^verbatim>\<open>strconv.Atoi\<close>
  reads \<open>iface\<close> from the second (0 when it is no number, for the error is dropped).
\<close>

definition rowDecodes :: "row \<Rightarrow> bool" where
  "rowDecodes row \<longleftrightarrow> 2 \<le> length (strings_Split (row_get row ''interface'') '':'')"

definition rowCovers :: "string \<Rightarrow> int \<Rightarrow> row \<Rightarrow> bool" where
  "rowCovers vm iface row =
     (let cell = strings_Split (row_get row ''interface'') '':''
      in 2 \<le> length cell \<and> cell ! 0 = vm \<and> fst (strconv_Atoi (cell ! 1)) = iface)"

definition GetVMHost :: "env \<Rightarrow> Options \<Rightarrow> mmcli_Command list \<Rightarrow> (error + string) \<times> mmcli_Command list" where
  "GetVMHost env opts h =
     (let cmd = (NewNamespacedCommand (o_ns opts))
                  \<lparr>Command := ''vm info'', Columns := [''host''], Filters := [''name='' @ o_vm opts]\<rparr>;
          status = RunTabular env h cmd
      in if status = [] then (Inl (Errorf (''VM '' @ o_vm opts @ '' not found'')), h @ [cmd])
         else (Inr (row_get (hd status) ''host''), h @ [cmd]))"

subsection \<open>Hosts\<close>

definition hostOfRow :: "env \<Rightarrow> row \<Rightarrow> Host" where
  "hostOfRow env row =
     (let tx = strconv_ParseFloat env (row_get row ''tx'');
          rx = strconv_ParseFloat env (row_get row ''rx'')
      in \<lparr>Host_Name = row_get row ''host'',
          Host_CPUs = fst (strconv_Atoi (row_get row ''cpus'')),
          Host_CPUCommit = fst (strconv_Atoi (row_get row ''cpucommit'')),
          Host_Load = strings_Split (row_get row ''load'') '' '',
          Host_MemUsed = fst (strconv_Atoi (row_get row ''memused'')),
          Host_MemTotal = fst (strconv_Atoi (row_get row ''memtotal'')),
          Host_MemCommit = fst (strconv_Atoi (row_get row ''memcommit'')),
          Host_VMs = fst (strconv_Atoi (row_get row ''vms'')),
          Host_Tx = tx,
          Host_Rx = rx,
          Host_Bandwidth = ''rx: '' @ fmt_f1 env rx @ '' / tx: '' @ fmt_f1 env tx,
          Host_NetCommit = fst (strconv_Atoi (row_get row ''netcommit'')),
          Host_Uptime = (case time_ParseDuration env (row_get row ''uptime'') of
                           None \<Rightarrow> Seconds 0 | Some d \<Rightarrow> Seconds d),
          Host_Schedulable = False,
          Host_Headnode = False\<rparr>)"

text \<open>\<^verbatim>\<open>processNamespaceHosts\<close> never returns an error, so the model returns the hosts only.\<close>

definition processNamespaceHosts :: "env \<Rightarrow> string \<Rightarrow> mmcli_Command list \<Rightarrow> Host list \<times> mmcli_Command list" where
  "processNamespaceHosts env namespace h =
     (let cmd = (NewNamespacedCommand namespace)\<lparr>Command := ''host''\<rparr>
      in (map (hostOfRow env) (RunTabular env h cmd), h @ [cmd]))"

definition Headnode :: "env \<Rightarrow> mmcli_Command list \<Rightarrow> string \<times> mmcli_Command list" where
  "Headnode env h =
     (case processNamespaceHosts env ''minimega'' h of
        (hosts, h') \<Rightarrow>
          if hosts = [] then ([], h')
          else (TrimHostnameSuffixes env (Host_Name (hd hosts)), h'))"

definition IsHeadnode :: "env \<Rightarrow> string \<Rightarrow> mmcli_Command list \<Rightarrow> bool \<times> mmcli_Command list" where
  "IsHeadnode env node h =
     (let node' = TrimHostnameSuffixes env node
      in case Headnode env h of (headnode, h') \<Rightarrow> (node' = headnode, h'))"

text \<open>The loop of \<^verbatim>\<open>GetClusterHosts\<close> over the compute nodes; it updates \<open>head\<close> and \<open>cluster\<close>.\<close>

fun clusterLoop :: "env \<Rightarrow> Host list \<Rightarrow> Host \<Rightarrow> Host list \<Rightarrow> Host \<times> Host list" where
  "clusterLoop env [] head cluster = (head, cluster)"
| "clusterLoop env (host # hosts) head cluster =
     (if Host_Name host = Host_Name head
      then clusterLoop env hosts (head\<lparr>Host_Schedulable := True\<rparr>) cluster
      else clusterLoop env hosts head
             (cluster @ [host\<lparr>Host_Name := TrimHostnameSuffixes env (Host_Name host),
                              Host_Schedulable := True\<rparr>]))"

definition GetClusterHosts ::
  "env \<Rightarrow> bool \<Rightarrow> mmcli_Command list \<Rightarrow> (error + Host list) \<times> mmcli_Command list" where
  "GetClusterHosts env schedOnly h =
     (case processNamespaceHosts env ''minimega'' h of
        (hosts, h1) \<Rightarrow>
          if hosts = [] then (Inl (Errorf ''no cluster hosts found''), h1)
          else
            (let head = (hd hosts)\<lparr>Host_Schedulable := False, Host_Headnode := True\<rparr>
             in case ClearNamespace env ''__phenix__'' h1 of
                  (_, h2) \<Rightarrow>
                    (case processNamespaceHosts env ''__phenix__'' h2 of
                       (hosts', h3) \<Rightarrow>
                         (case clusterLoop env hosts' head [] of
                            (head', cluster) \<Rightarrow>
                              if schedOnly \<and> \<not> Host_Schedulable head' then (Inr cluster, h3)
                              else (Inr (cluster @
                                      [head'\<lparr>Host_Name := TrimHostnameSuffixes env (Host_Name head')\<rparr>]),
                                    h3)))))"

subsection \<open>StartVMCapture\<close>

text \<open>
  The unqualified calls \<^verbatim>\<open>GetVMCaptures(opts...)\<close>, \<^verbatim>\<open>GetVMHost(opts...)\<close> and
  \<^verbatim>\<open>IsHeadnode(host)\<close> are the package's wrappers around the methods of the same name.
\<close>

definition StartVMCapture :: "env \<Rightarrow> Options \<Rightarrow> mmcli_Command list \<Rightarrow> error option \<times> mmcli_Command list" where
  "StartVMCapture env opts h =
     (case GetVMCaptures env (o_ns opts) (o_vm opts) h of
        (Inl e, h1) \<Rightarrow> (Some e, h1)
      | (Inr captures, h1) \<Rightarrow>
          if list_ex (\<lambda>capture. Capture_Interface capture = o_captureIface opts) captures
          then (Some ErrCaptureExists, h1)
          else if filepath_IsAbs (o_captureFile opts)
          then (Some (Errorf ''path for capture file should not be absolute''), h1)
          else
            (case GetVMHost env opts h1 of
               (Inl err, h2) \<Rightarrow>
                 (Some (Wrapf ''unable to determine what host the VM is scheduled on'' err), h2)
             | (Inr host, h2) \<Rightarrow>
                 (case IsHeadnode env host h2 of
                    (isHead, h3) \<Rightarrow>
                      (let cmdPrefix = (if \<not> isHead then ''mesh send '' @ host else []);
                           dir = PhenixBase env @ ''/images/'' @ filepath_Dir env (o_captureFile opts);
                           cmd = NewCommand\<lparr>Command := cmdPrefix @ '' shell mkdir -p '' @ dir\<rparr>;
                           h4 = h3 @ [cmd]
                       in case ErrorResponse env h3 cmd of
                            Some err \<Rightarrow>
                              (Some (Wrapf ''ensuring experiment files directory exists'' err), h4)
                          | None \<Rightarrow>
                              (let cmd' = (NewNamespacedCommand (o_ns opts))
                                            \<lparr>Command := ''capture pcap vm '' @ o_vm opts @ '' ''
                                                @ fmt_d (o_captureIface opts) @ '' '' @ o_captureFile opts\<rparr>;
                                   h5 = h4 @ [cmd']
                               in case ErrorResponse env h4 cmd' of
                                    Some err \<Rightarrow>
                                      (Some (Wrapf (''starting VM capture for interface ''
                                                @ fmt_d (o_captureIface opts) @ '' on VM '' @ o_vm opts
                                                @ '' in namespace '' @ o_ns opts) err), h5)
                                  | None \<Rightarrow> (None, h5))))))"

subsection \<open>GetVMInfo\<close>

text \<open>
  The body of the loop for one row. \<^verbatim>\<open>strings.Fields(row["disks"])[0]\<close> and
  \<^verbatim>\<open>mmcli.RunTabular(cmd)[0]\<close> are index expressions without a check; element 0 of
  \<^verbatim>\<open>strings.Split\<close> always exists.
\<close>

definition vmInfoRow ::
  "env \<Rightarrow> string \<Rightarrow> row \<Rightarrow> mmcli_Command list \<Rightarrow> (error + VM) \<times> mmcli_Command list" where
  "vmInfoRow env ns row h =
     (let name = row_get row ''name''
      in case GetVMCaptures env ns name h of
           (Inl e, h1) \<Rightarrow> (Inl e, h1)
         | (Inr captures, h1) \<Rightarrow>
             (let fields = strings_Fields (Unicode env) (row_get row ''disks'')
              in if fields = [] then (Inl Panic_index_out_of_range, h1)
                 else
                   (let disk = hd (strings_Split (hd fields) '','');
                        cmd = NewCommand\<lparr>Command := ''disk info '' @ disk\<rparr>;
                        resps = RunTabular env h1 cmd;
                        h2 = h1 @ [cmd]
                    in if resps = [] then (Inl Panic_index_out_of_range, h2)
                       else
                         (let resp = hd resps
                          in (Inr \<lparr>VM_Host = row_get row ''host'',
                                   VM_Name = name,
                                   VM_Running = (row_get row ''state'' = ''RUNNING''),
                                   VM_Networks = decodeList (Unicode env) (row_get row ''vlan''),
                                   VM_Taps = decodeList (Unicode env) (row_get row ''tap''),
                                   VM_Captures = captures,
                                   VM_Uptime = (case time_ParseDuration env (row_get row ''uptime'') of
                                                  None \<Rightarrow> Finite 0 | Some d \<Rightarrow> Seconds d),
                                   VM_RAM = fst (strconv_Atoi (row_get row ''memory'')),
                                   VM_CPUs = fst (strconv_Atoi (row_get row ''vcpus'')),
                                   VM_Disk = (if row_get resp ''backingfile'' = []
                                              then row_get resp ''image''
                                              else row_get resp ''backingfile'')\<rparr>,
                              h2)))))"

fun vmInfoLoop ::
  "env \<Rightarrow> string \<Rightarrow> row list \<Rightarrow> VM list \<Rightarrow> mmcli_Command list \<Rightarrow> (error + VM list) \<times> mmcli_Command list" where
  "vmInfoLoop env ns [] vms h = (Inr vms, h)"
| "vmInfoLoop env ns (row # rows) vms h =
     (case vmInfoRow env ns row h of
        (Inl e, h') \<Rightarrow> (Inl e, h')
      | (Inr vm, h') \<Rightarrow> vmInfoLoop env ns rows (vms @ [vm]) h')"

definition GetVMInfo :: "env \<Rightarrow> Options \<Rightarrow> mmcli_Command list \<Rightarrow> (error + VM list) \<times> mmcli_Command list" where
  "GetVMInfo env opts h =
     (let cmd = (NewNamespacedCommand (o_ns opts))
                  \<lparr>Command := ''vm info'',
                   Columns := [''host'', ''name'', ''state'', ''uptime'', ''vlan'', ''tap'', ''memory'',
                               ''vcpus'', ''disks''],
                   Filters := (if o_vm opts \<noteq> [] then [''name='' @ o_vm opts] else [])\<rparr>
      in vmInfoLoop env (o_ns opts) (RunTabular env h cmd) [] (h @ [cmd]))"

subsection \<open>WaitForC2Response\<close>

text \<open>
  The options of a C2 call; the timeout is a \<^verbatim>\<open>time.Duration\<close>, in nanoseconds. A context
  is the instant at which its \<^verbatim>\<open>Done\<close> channel is closed, if ever, and the error it
  reports from then on.
\<close>

record C2Options =
  c2_ns :: string
  c2_commandID :: string
  c2_timeout :: int

record Context =
  ctx_Done_at :: "int option"
  ctx_Err :: error

text \<open>
  Time is a clock in nanoseconds that the call carries along; durations are in
  nanoseconds too. A query of the controller takes \<open>latency\<close>, \<^verbatim>\<open>time.Sleep\<close> takes what it is asked for, and \<open>select_delay\<close> passes
  between the moment a \<^verbatim>\<open>select\<close> has evaluated its channel expressions and the moment
  it looks at the channels. \<open>pick_done\<close> is the pseudo-random choice of a \<^verbatim>\<open>select\<close> that
  finds both channels ready.
\<close>

record runtime =
  latency :: int
  select_delay :: int
  pick_done :: "int \<Rightarrow> bool"

text \<open>
  The polling loop. Each pass evaluates \<^verbatim>\<open>ctx.Done()\<close> and \<^verbatim>\<open>time.After(o.timeout)\<close>
  anew: the timer is created by this pass, at \<open>now\<close>, and fires at \<open>now + timeout\<close>. The
  \<^verbatim>\<open>select\<close> has a \<^verbatim>\<open>default\<close> branch, so it does not wait: it takes a channel that is
  ready when it looks, and otherwise polls and sleeps one second. A loop that never
  returns is the value \<open>None\<close>.
\<close>

partial_function (option) waitLoop ::
  "env \<Rightarrow> runtime \<Rightarrow> Context \<Rightarrow> C2Options \<Rightarrow> mmcli_Command \<Rightarrow> int \<times> mmcli_Command list
     \<Rightarrow> (error option \<times> int \<times> mmcli_Command list) option" where
  "waitLoop env rt ctx opts cmd st =
     (case st of (now, h) \<Rightarrow>
        (let look = now + select_delay rt;
             doneReady = (case ctx_Done_at ctx of None \<Rightarrow> False | Some t \<Rightarrow> t \<le> look);
             timerReady = (now + c2_timeout opts \<le> look)
         in if doneReady \<and> timerReady
            then (if pick_done rt look then Some (Some (ctx_Err ctx), look, h)
                  else Some (Some (Errorf (''timeout waiting for response for command ''
                                            @ c2_commandID opts)), look, h))
            else if doneReady then Some (Some (ctx_Err ctx), look, h)
            else if timerReady
            then Some (Some (Errorf (''timeout waiting for response for command '' @ c2_commandID opts)),
                       look, h)
            else
              (let rows = RunTabular env h cmd;
                   now' = look + latency rt;
                   h' = h @ [cmd]
               in if rows = []
                  then Some (Some (Errorf (''no commands returned for ID '' @ c2_commandID opts)), now', h')
                  else if row_get (hd rows) ''id'' \<noteq> c2_commandID opts
                  then Some (Some (Errorf (''wrong command returned: '' @ row_get (hd rows) ''id'')), now', h')
                  else if list_ex (\<lambda>row. row_get row ''responses'' \<noteq> ''0'') rows
                  then Some (None, now', h')
                  else waitLoop env rt ctx opts cmd (now' + 1000000000, h'))))"

declare waitLoop.simps [code]

text \<open>
  The call starts its clock at 0. The command of the final fetch is the polling command
  with a new text: its columns and its filter are still set.
\<close>

definition WaitForC2Response ::
  "env \<Rightarrow> runtime \<Rightarrow> Context \<Rightarrow> C2Options \<Rightarrow> mmcli_Command list
     \<Rightarrow> ((error + string) \<times> int \<times> mmcli_Command list) option" where
  "WaitForC2Response env rt ctx opts h =
     (let cmd = (NewNamespacedCommand (c2_ns opts))
                  \<lparr>Command := ''cc commands'', Columns := [''id'', ''responses''],
                   Filters := [''id='' @ c2_commandID opts]\<rparr>
      in case waitLoop env rt ctx opts cmd (0, h) of
           None \<Rightarrow> None
         | Some (Some err, now, h') \<Rightarrow> Some (Inl err, now, h')
         | Some (None, now, h') \<Rightarrow>
             (let cmd' = cmd\<lparr>Command := ''cc response '' @ c2_commandID opts @ '' raw''\<rparr>
              in case SingleResponse env h' cmd' of
                   Inl err \<Rightarrow>
                     Some (Inl (Wrapf (''getting response for command '' @ c2_commandID opts) err),
                           now + latency rt, h' @ [cmd'])
                 | Inr resp \<Rightarrow> Some (Inr resp, now + latency rt, h' @ [cmd'])))"

subsection \<open>Histories\<close>

text \<open>
  A property of the commands \<open>cs\<close> issued from history \<open>h\<close> on: each \<^verbatim>\<open>disk info\<close> query
  among them came back with at least one row.
\<close>

fun disk_queries_answered :: "env \<Rightarrow> mmcli_Command list \<Rightarrow> mmcli_Command list \<Rightarrow> bool" where
  "disk_queries_answered env h [] = True"
| "disk_queries_answered env h (c # cs) =
     ((strings_HasPrefix (Command c) ''disk info '' \<longrightarrow> RunTabular env h c \<noteq> [])
      \<and> disk_queries_answered env (h @ [c]) cs)"

subsection \<open>The spec's reading of a multi-step workflow\<close>

text \<open>
  The spec describes \<^verbatim>\<open>redeploy\<close> as a sequence of steps, each a protocol call, of which
  the first failing one aborts the sequence and gives the error. A step is a command
  judged by its error response, with the message its error is wrapped in, or a lookup
  that fails with a message when the table comes back empty.
\<close>

datatype step = Exec mmcli_Command string | Lookup mmcli_Command string

fun step_cmd :: "step \<Rightarrow> mmcli_Command" where
  "step_cmd (Exec c msg) = c"
| "step_cmd (Lookup c msg) = c"

text \<open>The outcome of a step issued at history \<open>h\<close>: the error it returns, if it fails.\<close>

fun step_error :: "env \<Rightarrow> mmcli_Command list \<Rightarrow> step \<Rightarrow> error option" where
  "step_error env h (Exec c msg) = map_option (Wrapf msg) (ErrorResponse env h c)"
| "step_error env h (Lookup c msg) = (if RunTabular env h c = [] then Some (Errorf msg) else None)"

fun run_steps :: "env \<Rightarrow> step list \<Rightarrow> mmcli_Command list \<Rightarrow> error option \<times> mmcli_Command list" where
  "run_steps env [] h = (None, h)"
| "run_steps env (s # ss) h =
     (case step_error env h s of
        Some err \<Rightarrow> (Some err, h @ [step_cmd s])
      | None \<Rightarrow> run_steps env ss (h @ [step_cmd s]))"

text \<open>All of the steps \<open>ss\<close>, issued one after the other from history \<open>h\<close> on, succeed.\<close>

fun steps_succeed :: "env \<Rightarrow> mmcli_Command list \<Rightarrow> step list \<Rightarrow> bool" where
  "steps_succeed env h [] = True"
| "steps_succeed env h (s # ss) = (step_error env h s = None \<and> steps_succeed env (h @ [step_cmd s]) ss)"

text \<open>
  The steps of a redeploy in the order of the spec: clone the configuration, clear the
  migrate flag, kill, flush, the vCPU and the memory override if asked for, the disk
  steps if a disk is given, schedule the launch, launch, start. With files to inject,
  the disk steps begin with the lookup of the configured disk, whose answer (read at the
  history all earlier steps leave behind) decides between snapshot, inject and
  configuring the snapshot, and configuring the given disk.
\<close>

definition steps_before_disk :: "Options \<Rightarrow> step list" where
  "steps_before_disk opts =
     (let cmd = NewNamespacedCommand (o_ns opts);
          vm_in_ns = o_vm opts @ '' in namespace '' @ o_ns opts
      in [Exec (cmd\<lparr>Command := ''vm config clone '' @ o_vm opts\<rparr>) (''cloning VM '' @ vm_in_ns),
          Exec (cmd\<lparr>Command := ''clear vm config migrate''\<rparr>) (''clearing config for VM '' @ vm_in_ns),
          Exec (cmd\<lparr>Command := ''vm kill '' @ o_vm opts\<rparr>) (''killing VM '' @ vm_in_ns),
          Exec (cmd\<lparr>Command := ''vm flush''\<rparr>) (''flushing VMs in namespace '' @ o_ns opts)]
         @ (if o_cpu opts \<noteq> 0
            then [Exec (cmd\<lparr>Command := ''vm config vcpus '' @ fmt_d (o_cpu opts)\<rparr>)
                    (''configuring VCPUs for VM '' @ vm_in_ns)]
            else [])
         @ (if o_mem opts \<noteq> 0
            then [Exec (cmd\<lparr>Command := ''vm config mem '' @ fmt_d (o_mem opts)\<rparr>)
                    (''configuring memory for VM '' @ vm_in_ns)]
            else []))"

text \<open>The disk steps; \<open>h\<close> is the history at which they begin.\<close>

definition disk_steps :: "env \<Rightarrow> Options \<Rightarrow> mmcli_Command list \<Rightarrow> step list" where
  "disk_steps env opts h =
     (let cmd = NewNamespacedCommand (o_ns opts);
          vm_in_ns = o_vm opts @ '' in namespace '' @ o_ns opts;
          config_disk = (\<lambda>disk. Exec (cmd\<lparr>Command := ''vm config disk '' @ disk\<rparr>)
                                  (''configuring disk for VM '' @ vm_in_ns))
      in if o_disk opts = [] then []
         else if o_injects opts = [] then [config_disk (o_disk opts)]
         else
           (let q = cmd\<lparr>Command := ''vm config disk'', Columns := [''disks''],
                          Filters := [''name='' @ o_vm opts]\<rparr>
            in Lookup q (''disk config not found for VM '' @ vm_in_ns)
               # (case RunTabular env h q of
                    [] \<Rightarrow> []
                  | status # _ \<Rightarrow>
                      (let disk = filepath_Base (row_get status ''disks'')
                       in if strings_Contains disk ''_snapshot''
                          then [Exec (cmd\<lparr>Command := ''disk snapshot '' @ o_disk opts @ '' '' @ disk\<rparr>)
                                  (''snapshotting disk for VM '' @ vm_in_ns),
                                Exec (NewCommand\<lparr>Command := ''disk inject '' @ disk @ '':''
                                        @ fmt_d (o_injectPart opts) @ '' files ''
                                        @ strings_Join (o_injects opts) '' ''\<rparr>)
                                  (''injecting files into disk '' @ disk),
                                config_disk disk]
                          else [config_disk (o_disk opts)]))))"

definition steps_after_disk :: "Options \<Rightarrow> step list" where
  "steps_after_disk opts =
     (let cmd = NewNamespacedCommand (o_ns opts);
          vm_in_ns = o_vm opts @ '' in namespace '' @ o_ns opts
      in [Exec (cmd\<lparr>Command := ''vm launch kvm '' @ o_vm opts\<rparr>) (''scheduling VM '' @ vm_in_ns),
          Exec (cmd\<lparr>Command := ''vm launch''\<rparr>) (''launching scheduled VMs in namespace '' @ o_ns opts),
          Exec (cmd\<lparr>Command := ''vm start '' @ o_vm opts\<rparr>) (''starting VM '' @ vm_in_ns)])"

definition RedeployVM_steps :: "env \<Rightarrow> Options \<Rightarrow> mmcli_Command list \<Rightarrow> step list" where
  "RedeployVM_steps env opts h =
     steps_before_disk opts
     @ disk_steps env opts (h @ map step_cmd (steps_before_disk opts))
     @ steps_after_disk opts"

section \<open>Test doubles\<close>

text \<open>Concrete parameters for the examples below. ASCII input never reaches the Unicode routines.\<close>

definition test_unicode :: unicode where
  "test_unicode = \<lparr>TrimFunc_IsSpace = (\<lambda>s. s), TrimRightFunc_IsSpace = (\<lambda>s. s),
                    FieldsFunc_IsSpace = (\<lambda>s. [s])\<rparr>"

text \<open>
  Modelled from the spec: \<^verbatim>\<open>common.TrimHostnameSuffixes\<close> is not among the files. The spec
  says that name normalization strips deployment-added suffixes; the comments of
  \<^verbatim>\<open>Headnode\<close> and \<^verbatim>\<open>IsHeadnode\<close> name the suffixes \<^verbatim>\<open>-minimega\<close> and \<^verbatim>\<open>-phenix\<close>.
\<close>

definition trimSuffixes :: "string \<Rightarrow> string" where
  "trimSuffixes s = strings_TrimSuffix (strings_TrimSuffix s ''-minimega'') ''-phenix''"

text \<open>
  A controller double is given by its answers to \<^verbatim>\<open>Run\<close>, \<^verbatim>\<open>RunTabular\<close> and
  \<^verbatim>\<open>ErrorResponse\<close>. The test inputs use bare file names, whose directory is the dot.
\<close>

definition test_env ::
  "(mmcli_Command list \<Rightarrow> mmcli_Command \<Rightarrow> mmcli_Response list list)
     \<Rightarrow> (mmcli_Command list \<Rightarrow> mmcli_Command \<Rightarrow> row list)
     \<Rightarrow> (mmcli_Command list \<Rightarrow> mmcli_Command \<Rightarrow> error option) \<Rightarrow> env" where
  "test_env run tab err =
     \<lparr>Run = run, RunTabular = tab, ErrorResponse = err, SingleResponse = (\<lambda>h c. Inr ''ok''),
      PhenixBase = ''/phenix'', TrimHostnameSuffixes = trimSuffixes, Unicode = test_unicode,
      filepath_Dir = (\<lambda>p. ''.''), time_ParseDuration = (\<lambda>s. None),
      strconv_ParseFloat = (\<lambda>s. Finite 0), fmt_f1 = (\<lambda>f. ''0.0'')\<rparr>"

definition test_opts :: Options where
  "test_opts = \<lparr>o_ns = ''exp1'', o_vm = ''vm1'', o_cpu = 0, o_mem = 0, o_disk = [], o_injectPart = 1,
                 o_injects = [], o_captureIface = 0, o_captureFile = ''vm1.pcap''\<rparr>"

text \<open>A controller that has nothing to report and accepts every command, and one that refuses every command.\<close>

definition accepting :: env where
  "accepting = test_env (\<lambda>h c. []) (\<lambda>h c. []) (\<lambda>h c. None)"

definition refusing :: env where
  "refusing = test_env (\<lambda>h c. []) (\<lambda>h c. []) (\<lambda>h c. Some (Errorf ''vm not found''))"

text \<open>A controller with two VMs, one of them still building, and an empty launch queue.\<close>

definition building :: env where
  "building =
     test_env (\<lambda>h c. [[\<lparr>Response = [], Error = []\<rparr>]])
       (\<lambda>h c. if Command c = ''vm info''
               then [[''state'' \<mapsto> ''BUILDING''], [''state'' \<mapsto> ''RUNNING'']] else [])
       (\<lambda>h c. None)"

text \<open>A controller with an empty launch queue and one VM, which runs.\<close>

definition idle :: env where
  "idle =
     test_env (\<lambda>h c. [[\<lparr>Response = [], Error = []\<rparr>]])
       (\<lambda>h c. if Command c = ''vm info'' then [[''state'' \<mapsto> ''RUNNING'']] else [])
       (\<lambda>h c. None)"

text \<open>A controller whose launch queue holds three names on one host.\<close>

definition queueing :: env where
  "queueing =
     test_env (\<lambda>h c. [[\<lparr>Response = ''Names: a,b,c'', Error = []\<rparr>]]) (\<lambda>h c. []) (\<lambda>h c. None)"

text \<open>A controller with one capture, on interface 0 of \<^verbatim>\<open>vm1\<close>.\<close>

definition capturing :: env where
  "capturing =
     test_env (\<lambda>h c. [])
       (\<lambda>h c. if Command c = ''capture''
               then [[''interface'' \<mapsto> ''vm1:0'', ''path'' \<mapsto> ''old.pcap'']] else [])
       (\<lambda>h c. None)"

text \<open>
  A controller whose capture table has a second row, for a capture on a bridge: its
  interface cell names no VM and has no colon.
\<close>

definition bridge_capturing :: env where
  "bridge_capturing =
     test_env (\<lambda>h c. [])
       (\<lambda>h c. if Command c = ''capture''
               then [[''interface'' \<mapsto> ''vm1:0'', ''path'' \<mapsto> ''old.pcap''],
                     [''interface'' \<mapsto> ''mega_bridge'', ''path'' \<mapsto> ''bridge.pcap'']] else [])
       (\<lambda>h c. None)"

text \<open>
  Four clusters. In \<open>single_node\<close> the head node is its own and only compute node. In
  \<open>two_nodes\<close> two other hosts compute. In \<open>head_and_node\<close> the head node computes beside
  one other host. In \<open>suffixed\<close> the one compute node reports the head node's name with
  a deployment suffix.
\<close>

definition cluster_env :: "string \<Rightarrow> string list \<Rightarrow> env" where
  "cluster_env headnode nodes =
     test_env (\<lambda>h c. [])
       (\<lambda>h c. if Command c = ''host''
               then (if Namespace c = ''minimega'' then [[''host'' \<mapsto> headnode]]
                     else map (\<lambda>n. [''host'' \<mapsto> n]) nodes)
               else [])
       (\<lambda>h c. None)"

definition single_node :: env where
  "single_node = cluster_env ''node1'' [''node1'']"

definition two_nodes :: env where
  "two_nodes = cluster_env ''node1'' [''node2'', ''node3'']"

definition head_and_node :: env where
  "head_and_node = cluster_env ''node1'' [''node1'', ''node2'']"

definition suffixed :: env where
  "suffixed = cluster_env ''node1'' [''node1-minimega'']"

text \<open>The name and the flags \<open>headnode\<close> and \<open>schedulable\<close> of the hosts of a result.\<close>

definition host_flags :: "(error + Host list) \<times> mmcli_Command list \<Rightarrow> (string \<times> bool \<times> bool) list" where
  "host_flags r =
     (case fst r of
        Inl e \<Rightarrow> []
      | Inr hosts \<Rightarrow> map (\<lambda>n. (Host_Name n, Host_Headnode n, Host_Schedulable n)) hosts)"

text \<open>
  A controller with one VM, whose disk is a snapshot over a base image. The argument is
  the \<^verbatim>\<open>disks\<close> cell of the VM's row.
\<close>

definition one_vm :: "string \<Rightarrow> env" where
  "one_vm disks =
     test_env (\<lambda>h c. [])
       (\<lambda>h c. if Command c = ''vm info''
               then [[''host'' \<mapsto> ''node1'', ''name'' \<mapsto> ''vm1'', ''state'' \<mapsto> ''RUNNING'',
                      ''vlan'' \<mapsto> ''[lan, wan]'', ''tap'' \<mapsto> ''[]'', ''memory'' \<mapsto> ''2048'',
                      ''vcpus'' \<mapsto> ''2'', ''disks'' \<mapsto> disks]]
               else if Command c = ''disk info /img/vm1_snapshot''
               then [[''image'' \<mapsto> ''/img/vm1_snapshot'', ''backingfile'' \<mapsto> ''/img/base.qc2'']]
               else [])
       (\<lambda>h c. None)"

text \<open>
  A redeploy with a new disk and a file to inject, against a controller that knows the
  VM's snapshot disk and has no room for another snapshot.
\<close>

definition inject_opts :: Options where
  "inject_opts = test_opts\<lparr>o_disk := ''/img/new.qc2'', o_injects := [''/tmp/a:/etc/a'']\<rparr>"

definition snapshot_refusing :: env where
  "snapshot_refusing =
     test_env (\<lambda>h c. [])
       (\<lambda>h c. if Command c = ''vm config disk''
               then [[''disks'' \<mapsto> ''/phenix/images/exp1_vm1_snapshot'']] else [])
       (\<lambda>h c. if strings_HasPrefix (Command c) ''disk snapshot ''
               then Some (Errorf ''no space left'') else None)"

text \<open>
  A controller that knows command 7 and never reports a response to it, a context that
  is never cancelled (\<^verbatim>\<open>context.Background()\<close>), one that is cancelled after 50
  milliseconds, a wait with a timeout of 200 milliseconds, a run time in which nothing
  but sleeping takes time, and one with queries of 30 milliseconds and a \<^verbatim>\<open>select\<close> that
  looks one millisecond late.
\<close>

definition never_done :: env where
  "never_done = test_env (\<lambda>h c. []) (\<lambda>h c. [[''id'' \<mapsto> ''7'', ''responses'' \<mapsto> ''0'']]) (\<lambda>h c. None)"

definition background :: Context where
  "background = \<lparr>ctx_Done_at = None, ctx_Err = Canceled\<rparr>"

definition cancelled_at_50ms :: Context where
  "cancelled_at_50ms = \<lparr>ctx_Done_at = Some 50000000, ctx_Err = Canceled\<rparr>"

definition wait_opts :: C2Options where
  "wait_opts = \<lparr>c2_ns = ''exp1'', c2_commandID = ''7'', c2_timeout = 200000000\<rparr>"

definition instant :: runtime where
  "instant = \<lparr>latency = 0, select_delay = 0, pick_done = (\<lambda>t. True)\<rparr>"

definition sluggish :: runtime where
  "sluggish = \<lparr>latency = 30000000, select_delay = 1000000, pick_done = (\<lambda>t. True)\<rparr>"

text \<open>A controller that reports one response to command 7 from the second query on.\<close>

definition done_later :: env where
  "done_later =
     test_env (\<lambda>h c. [])
       (\<lambda>h c. [[''id'' \<mapsto> ''7'', ''responses'' \<mapsto> (if h = [] then ''0'' else ''1'')]])
       (\<lambda>h c. None)"

section \<open>Decoding list fields\<close>

lemma identChar_facts:
  "identChar c \<Longrightarrow> belowRuneSelf c \<and> \<not> asciiSpace c \<and> c \<noteq> CHR '',''"
  by (auto simp: identChar_def belowRuneSelf_def asciiSpace_def Let_def)

lemma strings_Index_absent:
  "c \<notin> set x \<Longrightarrow> strings_Index x (c # sep) = None"
  by (induction x) (auto simp: strings_HasPrefix_def)

lemma strings_Index_first:
  "c \<notin> set x \<Longrightarrow> strings_Index (x @ (c # sep) @ r) (c # sep) = Some (length x)"
  by (induction x) (auto simp: strings_HasPrefix_def)

lemma strings_Split_Join:
  "xs \<noteq> [] \<Longrightarrow> list_all (\<lambda>x. c \<notin> set x) xs \<Longrightarrow>
     strings_Split (strings_Join xs (c # sep)) (c # sep) = xs"
proof (induction xs "c # sep" rule: strings_Join.induct)
  case 1
  then show ?case by simp
next
  case (2 x)
  then show ?case
    by (simp add: strings_Split.simps[of x] strings_Index_absent)
next
  case (3 x y ys)
  then have "strings_Split (strings_Join (y # ys) (c # sep)) (c # sep) = y # ys"
    by simp
  moreover from 3 have "c \<notin> set x" by simp
  ultimately show ?case
    by (simp add: strings_Split.simps[of "x @ c # sep @ strings_Join (y # ys) (c # sep)"]
        strings_Index_first[of c x sep, simplified])
qed

lemma strings_Join_nonempty:
  "xs \<noteq> [] \<Longrightarrow> list_all (\<lambda>x. x \<noteq> []) xs \<Longrightarrow>
     strings_Join xs sep \<noteq> [] \<and> hd (strings_Join xs sep) = hd (hd xs)
       \<and> last (strings_Join xs sep) = last (last xs)"
  by (induction xs sep rule: strings_Join.induct) auto

lemma strings_TrimSpace_ident:
  assumes "s \<noteq> []" and "identChar (hd s)" and "identChar (last s)"
  shows "strings_TrimSpace u s = s"
proof -
  from assms(1) obtain c cs where s: "s = c # cs"
    by (cases s) auto
  from assms(1) obtain l r where r: "rev s = l # r" and l: "l = last s"
    by (cases "rev s") (auto simp: last_rev[symmetric] simp del: last_rev)
  from assms(2) s identChar_facts[of c] have a: "strings_TrimSpace u s = trimSpace_stop u (rev s)"
    by simp
  from assms(3) l identChar_facts[of l] have "trimSpace_stop u (l # r) = rev (l # r)"
    by simp
  with a r show ?thesis
    by simp
qed

lemma strings_TrimPrefix_bracket: "strings_TrimPrefix (''['' @ t) ''['' = t"
  by (simp add: strings_TrimPrefix_def strings_HasPrefix_def)

lemma strings_TrimSuffix_bracket: "strings_TrimSuffix (t @ '']'') '']'' = t"
  by (simp add: strings_TrimSuffix_def strings_HasSuffix_def)

lemma decodeList_empty: "decodeList u ''[]'' = [] \<and> decodeList u [] = []"
  by (simp add: decodeList_def strings_TrimPrefix_def strings_TrimSuffix_def
      strings_HasPrefix_def strings_HasSuffix_def)

text \<open>
  Claim C8. For every sequence of identifier-safe strings, decoding the bracketed,
  comma-space-joined encoding gives the sequence back; the string \<^verbatim>\<open>[]\<close> decodes to the
  empty list, and so does a field that the row does not have.
\<close>

theorem decodeList_roundtrip:
  assumes "list_all identifier_safe xs" and "row field = None"
  shows "decodeList u (encodeList xs) = xs \<and> decodeList u ''[]'' = []
           \<and> decodeList u (row_get row field) = decodeList u ''[]''"
proof -
  have absent: "decodeList u (row_get row field) = decodeList u ''[]''"
    using assms(2) decodeList_empty[of u] by (simp add: row_get_def)
  have "decodeList u (encodeList xs) = xs"
  proof (cases "xs = []")
    case True
    then show ?thesis
      using decodeList_empty[of u] by (simp add: encodeList_def)
  next
    case False
    let ?j = "strings_Join xs '', ''"
    from assms(1) have ne: "list_all (\<lambda>x. x \<noteq> []) xs"
      and ids: "list_all (list_all identChar) xs"
      by (simp_all add: identifier_safe_def list_all_iff)
    from strings_Join_nonempty[OF False ne, of "'', ''"]
    have j: "?j \<noteq> []" "hd ?j = hd (hd xs)" "last ?j = last (last xs)"
      by simp_all
    from False have "hd xs \<in> set xs" "last xs \<in> set xs"
      by simp_all
    with ne ids have "hd (hd xs) \<in> set (hd xs)" "last (last xs) \<in> set (last xs)"
      "list_all identChar (hd xs)" "list_all identChar (last xs)"
      by (simp_all add: list_all_iff)
    then have "identChar (hd (hd xs))" "identChar (last (last xs))"
      by (simp_all add: list_all_iff)
    with j have trim: "strings_TrimSpace u ?j = ?j"
      by (simp add: strings_TrimSpace_ident)
    from ids have "list_all (\<lambda>x. CHR '','' \<notin> set x) xs"
      using identChar_facts by (fastforce simp: list_all_iff)
    from strings_Split_Join[OF False this, of "'' ''"]
    have "strings_Split ?j '', '' = xs"
      by simp
    with trim j(1) show ?thesis
      unfolding decodeList_def encodeList_def
      by (simp add: strings_TrimPrefix_bracket[simplified] strings_TrimSuffix_bracket Let_def)
  qed
  with absent decodeList_empty[of u] show ?thesis
    by simp
qed

theorem decodeList_roundtrip_witness:
  "list_all identifier_safe [''eth0'', ''eth1''] \<and> [''name'' \<mapsto> ''vm1''] ''vlan'' = None
     \<and> encodeList [''eth0'', ''eth1''] = ''[eth0, eth1]''
     \<and> decodeList test_unicode ''[eth0, eth1]'' = [''eth0'', ''eth1'']
     \<and> decodeList test_unicode (row_get [''name'' \<mapsto> ''vm1''] ''vlan'') = decodeList test_unicode ''[]''"
proof -
  have a: "list_all identifier_safe [''eth0'', ''eth1'']"
    by (simp add: identifier_safe_def identChar_def)
  have b: "[''name'' \<mapsto> ''vm1''] ''vlan'' = None"
    by simp
  have c: "encodeList [''eth0'', ''eth1''] = ''[eth0, eth1]''"
    by (simp add: encodeList_def)
  from decodeList_roundtrip[where xs = "[''eth0'', ''eth1'']" and row = "[''name'' \<mapsto> ''vm1'']"
      and field = "''vlan''" and u = test_unicode, OF a b] a b c show ?thesis
    by simp
qed

section \<open>Test doubles, evaluated\<close>

lemma env_test_env [simp]:
  "Run (test_env run tab err) = run" "RunTabular (test_env run tab err) = tab"
  "ErrorResponse (test_env run tab err) = err"
  by (simp_all add: test_env_def)

section \<open>KillVM\<close>

text \<open>
  Claim C9, amended. The call issues the kill command first. When that command succeeds,
  the flush command of the VM's namespace is the next and last command issued, and its
  outcome is the result of the call. When the kill command fails, the call returns the
  error of the kill command, wrapped, at once: the kill command is then the only command
  issued, and nothing is flushed.
\<close>

theorem KillVM_flush_after_kill:
  "KillVM env opts h =
     (case ErrorResponse env h
             \<lparr>Namespace = o_ns opts, Command = ''vm kill '' @ o_vm opts, Columns = [], Filters = []\<rparr> of
        None \<Rightarrow>
          (map_option (Wrapf (''flushing VMs in namespace '' @ o_ns opts))
             (ErrorResponse env
                (h @ [\<lparr>Namespace = o_ns opts, Command = ''vm kill '' @ o_vm opts, Columns = [], Filters = []\<rparr>])
                \<lparr>Namespace = o_ns opts, Command = ''vm flush'', Columns = [], Filters = []\<rparr>),
           h @ [\<lparr>Namespace = o_ns opts, Command = ''vm kill '' @ o_vm opts, Columns = [], Filters = []\<rparr>,
                \<lparr>Namespace = o_ns opts, Command = ''vm flush'', Columns = [], Filters = []\<rparr>])
      | Some err \<Rightarrow>
          (Some (Wrapf (''killing VM '' @ o_vm opts @ '' in namespace '' @ o_ns opts) err),
           h @ [\<lparr>Namespace = o_ns opts, Command = ''vm kill '' @ o_vm opts, Columns = [], Filters = []\<rparr>]))"
  by (simp add: KillVM_def flush_def issue_def andThen_def NewNamespacedCommand_def NewCommand_def
      split: option.split)

theorem KillVM_flush_after_kill_witness:
  "ErrorResponse accepting []
     \<lparr>Namespace = o_ns test_opts, Command = ''vm kill '' @ o_vm test_opts, Columns = [], Filters = []\<rparr> = None
   \<and> KillVM accepting test_opts [] =
       (None, [\<lparr>Namespace = ''exp1'', Command = ''vm kill vm1'', Columns = [], Filters = []\<rparr>,
               \<lparr>Namespace = ''exp1'', Command = ''vm flush'', Columns = [], Filters = []\<rparr>])
   \<and> ErrorResponse refusing []
     \<lparr>Namespace = o_ns test_opts, Command = ''vm kill '' @ o_vm test_opts, Columns = [], Filters = []\<rparr>
       = Some (Errorf ''vm not found'')
   \<and> snd (KillVM refusing test_opts []) =
       [\<lparr>Namespace = ''exp1'', Command = ''vm kill vm1'', Columns = [], Filters = []\<rparr>]"
proof -
  have a: "ErrorResponse accepting []
     \<lparr>Namespace = o_ns test_opts, Command = ''vm kill '' @ o_vm test_opts, Columns = [], Filters = []\<rparr> = None"
    by (simp add: accepting_def)
  have r: "ErrorResponse refusing []
     \<lparr>Namespace = o_ns test_opts, Command = ''vm kill '' @ o_vm test_opts, Columns = [], Filters = []\<rparr>
       = Some (Errorf ''vm not found'')"
    by (simp add: refusing_def)
  from KillVM_flush_after_kill[of accepting test_opts "[]"] a
  have 1: "KillVM accepting test_opts [] =
       (None, [\<lparr>Namespace = ''exp1'', Command = ''vm kill vm1'', Columns = [], Filters = []\<rparr>,
               \<lparr>Namespace = ''exp1'', Command = ''vm flush'', Columns = [], Filters = []\<rparr>])"
    by (simp add: accepting_def test_opts_def)
  from KillVM_flush_after_kill[of refusing test_opts "[]"] r
  have 2: "snd (KillVM refusing test_opts []) =
       [\<lparr>Namespace = ''exp1'', Command = ''vm kill vm1'', Columns = [], Filters = []\<rparr>]"
    by (simp add: test_opts_def)
  from a r 1 2 show ?thesis
    by simp
qed

text \<open>
  Claim C9 as stated fails: when the controller refuses the kill command, the call returns
  the wrapped error and the kill command is the only command issued.
\<close>

theorem KillVM_failed_kill_no_flush:
  "KillVM refusing test_opts [] =
     (Some (Wrapf ''killing VM vm1 in namespace exp1'' (Errorf ''vm not found'')),
      [\<lparr>Namespace = ''exp1'', Command = ''vm kill vm1'', Columns = [], Filters = []\<rparr>])"
  by (simp add: KillVM_def issue_def andThen_def refusing_def test_opts_def NewNamespacedCommand_def
      NewCommand_def)
section \<open>GetLaunchProgress\<close>

subsection \<open>Rounding to \<^verbatim>\<open>float64\<close>\<close>

lemma pow2_less_iff: "(2::rat) powi m < 2 powi n \<longleftrightarrow> m < n"
proof
  assume a: "(2::rat) powi m < 2 powi n"
  show "m < n"
  proof (rule ccontr)
    assume "\<not> m < n"
    then have "(2::rat) powi n \<le> 2 powi m"
      by (intro power_int_increasing) simp_all
    with a show False
      by simp
  qed
next
  assume "m < n"
  then show "(2::rat) powi m < 2 powi n"
    by (intro power_int_strict_increasing) simp_all
qed

lemma pow2_le_iff: "(2::rat) powi m \<le> 2 powi n \<longleftrightarrow> m \<le> n"
  using pow2_less_iff[of n m] by (simp add: not_less[symmetric])

lemma ulp_pos: "(0::rat) < 2 powi k"
  by (simp add: zero_less_power_int)

lemma pow2_mult: "(2::rat) powi a * 2 powi b = 2 powi (a + b)"
  by (simp add: power_int_add)

lemma pow2_div: "(2::rat) powi a / 2 powi b = 2 powi (a - b)"
  by (simp add: power_int_diff)

lemma two53: "(of_int (2 ^ 53) :: rat) = 2 powi 53" "(of_int (2 ^ 52) :: rat) = 2 powi 52"
  by simp_all

lemma div_ulp_mono: "x \<le> y \<Longrightarrow> x / (2::rat) powi k \<le> y / 2 powi k"
  by (rule divide_right_mono) (simp_all add: less_imp_le[OF ulp_pos])

lemma mult_ulp_mono: "(a::int) \<le> b \<Longrightarrow> of_int a * (2::rat) powi k \<le> of_int b * 2 powi k"
  by (rule mult_right_mono) (simp_all add: less_imp_le[OF ulp_pos])

lemma pow_bitlen:
  assumes "0 < p"
  shows "(2::rat) powi (bitlen p - 1) \<le> of_int p" "of_int p < (2::rat) powi bitlen p"
proof -
  from assms have b1: "1 \<le> bitlen p"
    by (auto simp: bitlen_alt_def)
  from bitlen_bounds[OF assms] have lo: "2 ^ nat (bitlen p - 1) \<le> p" and hi: "p < 2 ^ nat (bitlen p)"
    by simp_all
  from lo have "(of_int (2 ^ nat (bitlen p - 1)) :: rat) \<le> of_int p"
    by (simp only: of_int_le_iff)
  with b1 show "(2::rat) powi (bitlen p - 1) \<le> of_int p"
    by (simp add: power_int_def)
  from hi have "(of_int p :: rat) < of_int (2 ^ nat (bitlen p))"
    by (simp only: of_int_less_iff)
  with b1 show "of_int p < (2::rat) powi bitlen p"
    by (simp add: power_int_def)
qed

text \<open>The exponent is the one of the binade, or the least one below the normal numbers.\<close>

lemma float_exp_bounds:
  assumes "0 < x"
  shows "x < 2 powi (float_exp x + 1)"
    and "2 powi float_exp x \<le> x \<or> float_exp x = - 1022"
    and "- 1022 \<le> float_exp x"
proof -
  obtain p q where pq: "quotient_of x = (p, q)"
    by (cases "quotient_of x")
  then have q: "0 < q" and x: "x = of_int p / of_int q"
    by (simp_all add: quotient_of_denom_pos quotient_of_div)
  with assms have p: "0 < p"
    by (simp add: zero_less_divide_iff)
  define d where "d = bitlen p - bitlen q"
  define k where "k = (if 2 powi d \<le> x then d else d - 1)"
  have fe: "float_exp x = max k (- 1022)"
    by (simp add: float_exp_def pq d_def k_def Let_def)
  have qpos: "(0::rat) < of_int q"
    using q by simp
  have up: "x < 2 powi (d + 1)"
  proof -
    have "of_int p < (2::rat) powi bitlen p"
      by (rule pow_bitlen[OF p])
    also have "\<dots> = 2 powi (d + 1) * 2 powi (bitlen q - 1)"
      by (simp add: d_def flip: power_int_add)
    also have "\<dots> \<le> 2 powi (d + 1) * of_int q"
      by (rule mult_left_mono[OF pow_bitlen(1)[OF q]]) simp
    finally show ?thesis
      using qpos by (simp add: x pos_divide_less_eq)
  qed
  have lo: "2 powi (d - 1) \<le> x"
  proof -
    have "2 powi (d - 1) * of_int q \<le> 2 powi (d - 1) * (2::rat) powi bitlen q"
      by (rule mult_left_mono[OF less_imp_le[OF pow_bitlen(2)[OF q]]]) simp
    also have "\<dots> = 2 powi (bitlen p - 1)"
      by (simp add: d_def flip: power_int_add)
    also have "\<dots> \<le> of_int p"
      by (rule pow_bitlen[OF p])
    finally show ?thesis
      using qpos by (simp add: x pos_le_divide_eq)
  qed
  have kup: "x < 2 powi (k + 1)" and klo: "2 powi k \<le> x"
    using up lo by (auto simp: k_def)
  have mono: "(2::rat) powi (k + 1) \<le> 2 powi (max k (- 1022) + 1)"
    by (rule power_int_increasing) simp_all
  from kup mono show "x < 2 powi (float_exp x + 1)"
    by (simp only: fe)
  from klo show "2 powi float_exp x \<le> x \<or> float_exp x = - 1022"
    by (auto simp: fe max_def)
  show "- 1022 \<le> float_exp x"
    by (simp add: fe)
qed

lemma float_exp_unique:
  assumes "0 < x" and "- 1022 \<le> k" and "2 powi k \<le> x" and "x < 2 powi (k + 1)"
  shows "float_exp x = k"
proof -
  note b = float_exp_bounds[OF assms(1)]
  from assms(3) b(1) have "(2::rat) powi k < 2 powi (float_exp x + 1)"
    by (rule le_less_trans)
  then have le: "k \<le> float_exp x"
    by (simp add: pow2_less_iff)
  from b(2) show ?thesis
  proof
    assume "2 powi float_exp x \<le> x"
    from this assms(4) have "(2::rat) powi float_exp x < 2 powi (k + 1)"
      by (rule le_less_trans)
    then have "float_exp x \<le> k"
      by (simp add: pow2_less_iff)
    with le show ?thesis
      by simp
  next
    assume e: "float_exp x = - 1022"
    with le assms(2) show ?thesis
      by simp
  qed
qed

lemma float_exp_mono:
  assumes "0 < x" and "x \<le> y"
  shows "float_exp x \<le> float_exp y"
proof -
  from assms have y: "0 < y"
    by simp
  from float_exp_bounds(2)[OF assms(1)] show ?thesis
  proof
    assume "2 powi float_exp x \<le> x"
    also note assms(2)
    also note float_exp_bounds(1)[OF y]
    finally show ?thesis
      by (simp add: pow2_less_iff)
  next
    assume "float_exp x = - 1022"
    with float_exp_bounds(3)[OF y] show ?thesis
      by simp
  qed
qed

lemma roundEven_of_int: "roundEven (of_int n) = n"
  by (simp add: roundEven_def)

lemma roundEven_floor: "\<lfloor>r\<rfloor> \<le> roundEven r" "roundEven r \<le> \<lfloor>r\<rfloor> + 1"
  by (simp_all add: roundEven_def Let_def)

lemma roundEven_mono:
  assumes "r \<le> s"
  shows "roundEven r \<le> roundEven s"
proof (cases "\<lfloor>r\<rfloor> = \<lfloor>s\<rfloor>")
  case True
  with assms show ?thesis
    by (auto simp: roundEven_def Let_def)
next
  case False
  from assms have "\<lfloor>r\<rfloor> \<le> \<lfloor>s\<rfloor>"
    by (rule floor_mono)
  with False have "\<lfloor>r\<rfloor> + 1 \<le> \<lfloor>s\<rfloor>"
    by simp
  with roundEven_floor(2)[of r] roundEven_floor(1)[of s] show ?thesis
    by linarith
qed

lemma roundEven_le: "r \<le> of_int n \<Longrightarrow> roundEven r \<le> n"
  using roundEven_mono[of r "of_int n"] by (simp add: roundEven_of_int)

lemma roundEven_ge: "of_int n \<le> r \<Longrightarrow> n \<le> roundEven r"
  using roundEven_mono[of "of_int n" r] by (simp add: roundEven_of_int)

lemma roundPos_upper:
  assumes "0 < x"
  shows "roundPos x \<le> 2 powi (float_exp x + 1)"
proof -
  let ?u = "(2::rat) powi (float_exp x - 52)"
  have "x / ?u \<le> 2 powi (float_exp x + 1) / ?u"
    by (rule div_ulp_mono[OF less_imp_le[OF float_exp_bounds(1)[OF assms]]])
  also have "\<dots> = of_int (2 ^ 53)"
    by (simp only: two53 pow2_div) simp
  finally have "roundEven (x / ?u) \<le> 2 ^ 53"
    by (rule roundEven_le)
  then have "of_int (roundEven (x / ?u)) * ?u \<le> of_int (2 ^ 53) * ?u"
    by (rule mult_ulp_mono)
  also have "of_int (2 ^ 53) * ?u = 2 powi (float_exp x + 1)"
    by (simp only: two53 pow2_mult, rule arg_cong[where f = "\<lambda>k. 2 powi k"], simp)
  finally show ?thesis
    by (simp add: roundPos_def Let_def)
qed

lemma roundPos_lower:
  assumes "0 < x" and "2 powi float_exp x \<le> x"
  shows "2 powi float_exp x \<le> roundPos x"
proof -
  let ?u = "(2::rat) powi (float_exp x - 52)"
  have "of_int (2 ^ 52) = 2 powi float_exp x / ?u"
    by (simp only: two53 pow2_div) simp
  also have "\<dots> \<le> x / ?u"
    by (rule div_ulp_mono[OF assms(2)])
  finally have "2 ^ 52 \<le> roundEven (x / ?u)"
    by (rule roundEven_ge)
  then have A: "of_int (2 ^ 52) * ?u \<le> of_int (roundEven (x / ?u)) * ?u"
    by (rule mult_ulp_mono)
  have B: "of_int (2 ^ 52) * ?u = 2 powi float_exp x"
    by (simp only: two53 pow2_mult, rule arg_cong[where f = "\<lambda>k. 2 powi k"], simp)
  from A[unfolded B] show ?thesis
    by (simp add: roundPos_def Let_def)
qed

lemma roundPos_nonneg:
  assumes "0 < x"
  shows "0 \<le> roundPos x"
proof -
  let ?u = "(2::rat) powi (float_exp x - 52)"
  have "of_int 0 \<le> x / ?u"
    using div_ulp_mono[OF less_imp_le[OF assms], of "float_exp x - 52"] by simp
  then have "0 \<le> roundEven (x / ?u)"
    by (rule roundEven_ge)
  from mult_ulp_mono[OF this, of "float_exp x - 52"] show ?thesis
    by (simp add: roundPos_def Let_def)
qed

text \<open>Rounding keeps the order.\<close>

lemma roundPos_mono:
  assumes "0 < x" and "x \<le> y"
  shows "roundPos x \<le> roundPos y"
proof (cases "float_exp x = float_exp y")
  case True
  let ?u = "(2::rat) powi (float_exp y - 52)"
  have "x / ?u \<le> y / ?u"
    by (rule div_ulp_mono[OF assms(2)])
  then have "roundEven (x / ?u) \<le> roundEven (y / ?u)"
    by (rule roundEven_mono)
  then have "of_int (roundEven (x / ?u)) * ?u \<le> of_int (roundEven (y / ?u)) * ?u"
    by (rule mult_ulp_mono)
  then show ?thesis
    by (simp add: roundPos_def Let_def True)
next
  case False
  from assms have y: "0 < y"
    by simp
  from False float_exp_mono[OF assms] have lt: "float_exp x + 1 \<le> float_exp y"
    by simp
  with float_exp_bounds(3)[OF assms(1)] have "float_exp y \<noteq> - 1022"
    by simp
  with float_exp_bounds(2)[OF y] have "2 powi float_exp y \<le> y"
    by simp
  from roundPos_lower[OF y this] have low: "2 powi float_exp y \<le> roundPos y" .
  have "roundPos x \<le> 2 powi (float_exp x + 1)"
    by (rule roundPos_upper[OF assms(1)])
  also from lt have "\<dots> \<le> 2 powi float_exp y"
    by (intro power_int_increasing) simp_all
  also note low
  finally show ?thesis .
qed

text \<open>Integers of at most 53 bits and powers of two are kept as they are.\<close>

lemma roundPos_of_int:
  assumes "0 < n" and "n \<le> 2 ^ 53"
  shows "roundPos (of_int n) = of_int n"
proof -
  let ?x = "of_int n :: rat"
  let ?e = "float_exp ?x"
  from assms(1) have x: "0 < ?x"
    by simp
  note b = float_exp_bounds[OF x]
  from assms(1) have "(2::rat) powi 0 \<le> ?x"
    by simp
  also note b(1)
  finally have "0 < ?e + 1"
    by (simp only: pow2_less_iff)
  then have e0: "0 \<le> ?e"
    by simp
  then have lo: "2 powi ?e \<le> ?x"
    using b(2) by auto
  from assms(2) have "?x \<le> of_int (2 ^ 53)"
    by (simp only: of_int_le_iff)
  then have x53: "?x \<le> 2 powi 53"
    by simp
  with lo have "(2::rat) powi ?e \<le> 2 powi 53"
    by (rule order_trans)
  then have e53: "?e \<le> 53"
    by (simp only: pow2_le_iff)
  show ?thesis
  proof (cases "?e = 53")
    case True
    with lo x53 have "?x = 2 powi 53"
      by simp
    then have n: "?x = of_int (2 ^ 53)"
      by simp
    have "roundPos (of_int (2 ^ 53)) = of_int (roundEven (of_int (2 ^ 52))) * 2"
      using True by (simp add: roundPos_def n[symmetric]) (simp add: n)
    then show ?thesis
      by (simp add: n roundEven_of_int del: of_int_power of_int_numeral)
  next
    case False
    with e53 have "?e \<le> 52"
      by simp
    then obtain j where j: "52 - ?e = int j"
      by (metis diff_ge_0_iff_ge nonneg_int_cases)
    then have u: "(2::rat) powi (?e - 52) = 1 / 2 ^ j"
      by (metis power_int_minus_divide power_int_of_nat minus_diff_eq)
    have "?x / (1 / 2 ^ j) = of_int (n * 2 ^ j)"
      by simp
    then have "roundEven (?x / (1 / 2 ^ j)) = n * 2 ^ j"
      by (simp only: roundEven_of_int)
    then show ?thesis
      by (simp add: roundPos_def u)
  qed
qed

lemma float_exp_pow2:
  assumes "- 1022 \<le> k"
  shows "float_exp (2 powi k) = k"
  by (rule float_exp_unique[OF ulp_pos assms]) (simp_all add: pow2_less_iff)

lemma roundPos_pow2:
  assumes "- 1022 \<le> k"
  shows "roundPos (2 powi k) = 2 powi k"
proof -
  let ?u = "(2::rat) powi (k - 52)"
  have "2 powi k / ?u = of_int (2 ^ 52)"
    by (simp only: two53 pow2_div, rule arg_cong[where f = "\<lambda>k. 2 powi k"], simp)
  then have "roundEven (2 powi k / ?u) = 2 ^ 52"
    by (simp only: roundEven_of_int)
  moreover have "of_int (2 ^ 52) * ?u = 2 powi k"
    by (simp only: two53 pow2_mult, rule arg_cong[where f = "\<lambda>k. 2 powi k"], simp)
  ultimately show ?thesis
    unfolding roundPos_def Let_def float_exp_pow2[OF assms] by simp
qed

lemma roundPos_one: "roundPos 1 = 1"
  using roundPos_pow2[of 0] by simp

subsection \<open>Conversion and division\<close>

lemma float64_of_int_0: "float64_of_int 0 = Finite 0"
  by (simp add: float64_of_int_def float64_round_def)

lemma float64_of_int_exact:
  assumes "n \<noteq> 0" and "\<bar>n\<bar> \<le> 2 ^ 53"
  shows "float64_of_int n = Finite (of_int n)"
proof -
  from assms have a: "0 < \<bar>n\<bar>"
    by simp
  have r: "roundPos (of_int \<bar>n\<bar>) = of_int \<bar>n\<bar>"
    by (rule roundPos_of_int[OF a assms(2)])
  have small: "\<not> (2::rat) ^ 1024 \<le> of_int \<bar>n\<bar>"
  proof -
    from assms(2) have "(of_int \<bar>n\<bar> :: rat) \<le> of_int (2 ^ 53)"
      by (simp only: of_int_le_iff)
    then show ?thesis
      by simp
  qed
  have abs: "\<bar>of_int n :: rat\<bar> = of_int \<bar>n\<bar>"
    by simp
  from assms(1) a small show ?thesis
    by (simp only: float64_of_int_def float64_round_def Let_def abs r) auto
qed

lemma float64_of_int_pos:
  assumes "0 < n"
  shows "1 \<le> roundPos (of_int n)"
    and "float64_of_int n = PosInf \<or> float64_of_int n = Finite (roundPos (of_int n))"
proof -
  from assms have x: "(1::rat) \<le> of_int n"
    by simp
  from roundPos_mono[OF _ x] show one: "1 \<le> roundPos (of_int n)"
    by (simp add: roundPos_one)
  from assms one show "float64_of_int n = PosInf \<or> float64_of_int n = Finite (roundPos (of_int n))"
    by (simp add: float64_of_int_def float64_round_def Let_def)
qed

lemma float64_of_int_word:
  assumes "0 < n" and "n < 2 ^ 63"
  shows "float64_of_int n = Finite (roundPos (of_int n))"
proof -
  from assms(1) have x: "(0::rat) < of_int n"
    by simp
  from assms(2) have "(of_int n :: rat) \<le> of_int (2 ^ 63)"
    by (simp only: of_int_le_iff)
  then have le: "(of_int n :: rat) \<le> 2 powi 63"
    by simp
  have p63: "roundPos (2 powi 63) = 2 powi 63"
    by (rule roundPos_pow2) simp
  from roundPos_mono[OF x le] have "roundPos (of_int n) \<le> 2 powi 63"
    unfolding p63 .
  then have "\<not> (2::rat) ^ 1024 \<le> roundPos (of_int n)"
    by simp
  with assms(1) float64_of_int_pos(1)[OF assms(1)] show ?thesis
    by (simp add: float64_of_int_def float64_round_def Let_def)
qed

text \<open>A quotient of two positive numbers, the divisor being the larger, is between 0 and 1.\<close>

lemma float64_quo_unit:
  assumes "0 < a" and "a \<le> b"
  shows "\<exists>r. float64_quo (Finite a) (Finite b) = Finite r \<and> 0 \<le> r \<and> r \<le> 1"
proof -
  from assms have b: "0 < b"
    by simp
  with assms have x: "0 < a / b" and x1: "a / b \<le> 1"
    by simp_all
  from roundPos_mono[OF x x1] have m1: "roundPos (a / b) \<le> 1"
    by (simp add: roundPos_one)
  have m0: "0 \<le> roundPos (a / b)"
    by (rule roundPos_nonneg[OF x])
  from m1 have small: "\<not> (2::rat) ^ 1024 \<le> roundPos (a / b)"
    by simp
  from assms b have q: "float64_quo (Finite a) (Finite b) = float64_round (a / b)"
    by (simp add: float64_quo_def isInf_def isZero_def float64_val_def)
  from assms(1) b have abs: "\<bar>a\<bar> = a" "\<bar>b\<bar> = b"
    by simp_all
  show ?thesis
  proof (cases "roundPos (a / b) = 0")
    case True
    with x small have "float64_round (a / b) = Finite 0"
      by (simp add: float64_round_def Let_def abs del: divide_eq_0_iff)
    with q show ?thesis
      by simp
  next
    case False
    with x small have "float64_round (a / b) = Finite (roundPos (a / b))"
      by (simp add: float64_round_def Let_def abs del: divide_eq_0_iff)
    with q m0 m1 show ?thesis
      by simp
  qed
qed

text \<open>Dividing a positive count by zero gives positive infinity, dividing zero by zero NaN.\<close>

lemma float64_quo_by_zero:
  assumes "0 < n"
  shows "float64_quo (float64_of_int n) (Finite 0) = PosInf"
  using float64_of_int_pos[OF assms]
  by (auto simp: float64_quo_def isInf_def isZero_def signbit_def inf_of_def)

lemma float64_quo_zero_zero: "float64_quo (Finite 0) (Finite 0) = NaN"
  by (simp add: float64_quo_def isInf_def isZero_def)

lemma sint_zero: "sint (w :: 64 word) = 0 \<longleftrightarrow> w = 0"
  by (simp add: signed_eq_0_iff)

lemma sint_bound: "sint (w :: 64 word) < 2 ^ 63"
  using sint_lt[of w] by simp

subsection \<open>The result of the call\<close>

lemma launchEarly_queued: "launchEarly env ns h \<Longrightarrow> launchQueued env ns h = 0"
  by (simp add: launchEarly_def launchQueued_def buildingRows_def Let_def)

lemma GetLaunchProgress_value:
  "fst (fst (GetLaunchProgress env ns expected h)) =
     (if launchEarly env ns h then Finite 0
      else float64_quo (float64_of_int (int (launchQueued env ns h))) (float64_of_int (sint expected)))"
  by (simp add: GetLaunchProgress_def launchEarly_def launchQueued_def Let_def)

text \<open>
  Claim C3, amended. The call never returns an error and nothing guards the division.
  At the early return (nothing queued, empty VM table) the value is 0. Otherwise, for an
  expected count of 0 it is NaN when the count \<open>queued\<close> that the function has computed is
  0 and positive infinity when it is not; for every other expected count it is the
  \<^verbatim>\<open>float64\<close> quotient of the two converted counts. For an expected count other than 0
  it lies between 0 and 1 whenever \<open>queued\<close> is at most the expected count, and it is the
  \<^verbatim>\<open>float64\<close> nearest to the exact quotient \<open>queued / expected\<close> whenever \<open>queued\<close> is positive
  and neither count exceeds \<open>2^53\<close> in magnitude.
\<close>

theorem GetLaunchProgress_fraction:
  "snd (fst (GetLaunchProgress env ns expected h)) = None
   \<and> fst (fst (GetLaunchProgress env ns expected h)) =
       (if launchEarly env ns h then Finite 0
        else if expected = 0 then (if launchQueued env ns h = 0 then NaN else PosInf)
        else float64_quo (float64_of_int (int (launchQueued env ns h))) (float64_of_int (sint expected)))
   \<and> (expected \<noteq> 0 \<and> int (launchQueued env ns h) \<le> sint expected \<longrightarrow>
        (\<exists>r. fst (fst (GetLaunchProgress env ns expected h)) = Finite r \<and> 0 \<le> r \<and> r \<le> 1))
   \<and> (0 < launchQueued env ns h \<and> int (launchQueued env ns h) \<le> 2 ^ 53
        \<and> expected \<noteq> 0 \<and> \<bar>sint expected\<bar> \<le> 2 ^ 53 \<longrightarrow>
        fst (fst (GetLaunchProgress env ns expected h))
          = float64_round (of_nat (launchQueued env ns h) / of_int (sint expected)))"
proof -
  let ?v = "fst (fst (GetLaunchProgress env ns expected h))"
  let ?q = "launchQueued env ns h"
  let ?e = "sint expected"
  note v = GetLaunchProgress_value[of env ns expected h]
  have nil: "snd (fst (GetLaunchProgress env ns expected h)) = None"
    by (simp add: GetLaunchProgress_def Let_def)
  have zero: "?v = (if ?q = 0 then NaN else PosInf)" if "\<not> launchEarly env ns h" "expected = 0"
  proof (cases "?q = 0")
    case True
    with that v show ?thesis
      by (simp add: float64_of_int_0 float64_quo_zero_zero)
  next
    case False
    then have "0 < int ?q"
      by simp
    from float64_quo_by_zero[OF this] False that v show ?thesis
      by (simp add: float64_of_int_0)
  qed
  have val: "?v = (if launchEarly env ns h then Finite 0
                   else if expected = 0 then (if ?q = 0 then NaN else PosInf)
                   else float64_quo (float64_of_int (int ?q)) (float64_of_int ?e))"
  proof (cases "launchEarly env ns h")
    case True
    with v show ?thesis
      by simp
  next
    case False
    show ?thesis
    proof (cases "expected = 0")
      case True
      with False zero show ?thesis
        by simp
    next
      case e: False
      with False v show ?thesis
        by simp
    qed
  qed
  have unit: "\<exists>r. ?v = Finite r \<and> 0 \<le> r \<and> r \<le> 1" if "expected \<noteq> 0" "int ?q \<le> ?e"
  proof (cases "launchEarly env ns h")
    case True
    with v show ?thesis
      by simp
  next
    case False
    from that(1) have "?e \<noteq> 0"
      by (simp add: sint_zero)
    with that(2) have pos: "0 < ?e"
      by linarith
    have fe: "float64_of_int ?e = Finite (roundPos (of_int ?e))"
      by (rule float64_of_int_word[OF pos sint_bound])
    have rb: "1 \<le> roundPos (of_int ?e)"
      by (rule float64_of_int_pos(1)[OF pos])
    show ?thesis
    proof (cases "?q = 0")
      case True
      with rb have "float64_quo (float64_of_int (int ?q)) (float64_of_int ?e) = Finite 0"
        by (simp add: fe float64_of_int_0 float64_quo_def isInf_def isZero_def signbit_def zero_of_def)
      with False v show ?thesis
        by simp
    next
      case q: False
      then have qpos: "0 < int ?q"
        by simp
      from that(2) sint_bound[of expected] have "int ?q < 2 ^ 63"
        by linarith
      from float64_of_int_word[OF qpos this]
      have fq: "float64_of_int (int ?q) = Finite (roundPos (of_int (int ?q)))" .
      from float64_of_int_pos(1)[OF qpos] have ra: "0 < roundPos (of_int (int ?q))"
        by linarith
      from qpos have x: "(0::rat) < of_int (int ?q)"
        by simp
      from that(2) have "(of_int (int ?q) :: rat) \<le> of_int ?e"
        by (simp only: of_int_le_iff)
      from roundPos_mono[OF x this] have "roundPos (of_int (int ?q)) \<le> roundPos (of_int ?e)" .
      from float64_quo_unit[OF ra this] False v show ?thesis
        by (simp add: fq fe)
    qed
  qed
  have near: "?v = float64_round (of_nat ?q / of_int ?e)"
    if "0 < ?q" "int ?q \<le> 2 ^ 53" "expected \<noteq> 0" "\<bar>?e\<bar> \<le> 2 ^ 53"
  proof -
    from that(1) launchEarly_queued[of env ns h] have ne: "\<not> launchEarly env ns h"
      by auto
    from that(1,2) have fq: "float64_of_int (int ?q) = Finite (of_int (int ?q))"
      by (intro float64_of_int_exact) simp_all
    from that(3) have e0: "?e \<noteq> 0"
      by (simp add: sint_zero)
    from float64_of_int_exact[OF e0 that(4)] have fe: "float64_of_int ?e = Finite (of_int ?e)" .
    from that(1,3) have "float64_quo (Finite (of_int (int ?q))) (Finite (of_int ?e))
        = float64_round (of_nat ?q / of_int ?e)"
      by (simp add: float64_quo_def isInf_def isZero_def float64_val_def signed_eq_0_iff)
    with ne v show ?thesis
      by (simp add: fq fe)
  qed
  from nil val unit near show ?thesis
    by blast
qed

lemma launchQueued_queueing: "launchQueued queueing ''exp1'' [] = 3"
  by (simp add: launchQueued_def queueing_def queuedNames_def regexp_Names.simps
      strings_HasPrefix_def strings_Split.simps NewNamespacedCommand_def NewCommand_def Let_def)

text \<open>The quotient of 3 and 7 as a \<^verbatim>\<open>float64\<close>, which Go prints as 0.42857142857142855.\<close>

lemma float_exp_3_7: "float_exp (3 / 7) = - 2"
  by (rule float_exp_unique) (simp_all add: power_int_minus_divide)

lemma roundEven_3_7: "roundEven (54043195528445952 / 7) = 7720456504063707"
  by code_simp

lemma float64_round_3_7: "float64_round (3 / 7) = Finite (7720456504063707 / 18014398509481984)"
  by (simp add: float64_round_def roundPos_def float_exp_3_7 roundEven_3_7 Let_def power_int_minus_divide)

theorem GetLaunchProgress_fraction_witness:
  "(7 :: 64 word) \<noteq> 0 \<and> int (launchQueued queueing ''exp1'' []) \<le> sint (7 :: 64 word)
   \<and> 0 < launchQueued queueing ''exp1'' [] \<and> int (launchQueued queueing ''exp1'' []) \<le> 2 ^ 53
   \<and> \<bar>sint (7 :: 64 word)\<bar> \<le> 2 ^ 53
   \<and> GetLaunchProgress queueing ''exp1'' 7 [] =
       ((Finite (7720456504063707 / 18014398509481984), None),
        [\<lparr>Namespace = ''exp1'', Command = ''ns queue'', Columns = [], Filters = []\<rparr>])
   \<and> 0 \<le> (7720456504063707 / 18014398509481984 :: rat)
   \<and> (7720456504063707 / 18014398509481984 :: rat) \<le> 1"
proof -
  have h: "snd (GetLaunchProgress queueing ''exp1'' 7 []) =
        [\<lparr>Namespace = ''exp1'', Command = ''ns queue'', Columns = [], Filters = []\<rparr>]"
    by (simp add: GetLaunchProgress_def queueing_def queuedNames_def regexp_Names.simps
        strings_HasPrefix_def strings_Split.simps NewNamespacedCommand_def NewCommand_def Let_def)
  note inst = GetLaunchProgress_fraction[of queueing "''exp1''" 7 "[]"]
  from inst have nil: "snd (fst (GetLaunchProgress queueing ''exp1'' 7 [])) = None"
    by (rule conjunct1)
  from inst have near:
    "0 < launchQueued queueing ''exp1'' [] \<and> int (launchQueued queueing ''exp1'' []) \<le> 2 ^ 53
     \<and> (7 :: 64 word) \<noteq> 0 \<and> \<bar>sint (7 :: 64 word)\<bar> \<le> 2 ^ 53 \<longrightarrow>
     fst (fst (GetLaunchProgress queueing ''exp1'' 7 []))
       = float64_round (of_nat (launchQueued queueing ''exp1'' []) / of_int (sint (7 :: 64 word)))"
    by (elim conjE)
  from near launchQueued_queueing
  have v: "fst (fst (GetLaunchProgress queueing ''exp1'' 7 [])) = float64_round (3 / 7)"
    by simp
  from nil v h launchQueued_queueing show ?thesis
    by (simp add: prod_eq_iff float64_round_3_7)
qed

text \<open>
  Claim C3 as stated fails: nothing guards the division. With one VM building and an
  expected count of 0 the call returns positive infinity and no error.
\<close>

theorem GetLaunchProgress_expected_zero:
  "GetLaunchProgress building ''exp1'' 0 [] =
     ((PosInf, None),
      [\<lparr>Namespace = ''exp1'', Command = ''ns queue'', Columns = [], Filters = []\<rparr>,
       \<lparr>Namespace = ''exp1'', Command = ''vm info'', Columns = [''state''], Filters = []\<rparr>])"
proof -
  have "float64_quo (float64_of_int 1) (Finite 0) = PosInf"
    by (rule float64_quo_by_zero) simp
  then show ?thesis
    by (simp add: GetLaunchProgress_def building_def queuedNames_def buildingRows_def row_get_def
        regexp_Names.simps float64_of_int_0 NewNamespacedCommand_def NewCommand_def Let_def)
qed

text \<open>
  Two more calls with an expected count of 0. With an empty queue and no VM building the
  value is NaN; with an empty queue and an empty VM table it is 0, from the early return.
\<close>

lemma GetLaunchProgress_zero_of_zero:
  "fst (GetLaunchProgress idle ''exp1'' 0 []) = (NaN, None)"
  by (simp add: GetLaunchProgress_def idle_def queuedNames_def buildingRows_def row_get_def
      regexp_Names.simps float64_of_int_0 float64_quo_zero_zero NewNamespacedCommand_def
      NewCommand_def Let_def)

lemma GetLaunchProgress_early_return:
  "fst (GetLaunchProgress accepting ''exp1'' 0 []) = (Finite 0, None)"
  by (simp add: GetLaunchProgress_def accepting_def queuedNames_def NewNamespacedCommand_def
      NewCommand_def Let_def)


section \<open>StartVMCapture\<close>

lemma GetVMCaptures_history:
  "snd (GetVMCaptures env ns vm h) =
     h @ [\<lparr>Namespace = ns, Command = ''capture'', Columns = [''interface'', ''path''], Filters = []\<rparr>]"
  by (simp add: GetVMCaptures_def GetExperimentCaptures_def NewNamespacedCommand_def NewCommand_def
      Let_def split: sum.split)

text \<open>
  Claim C5, amended. A call with an absolute capture file path fails (with the error of
  the path, with \<open>ErrCaptureExists\<close>, or in the panic of the capture listing), and the only
  command it issues is the capture listing of \<^verbatim>\<open>GetVMCaptures\<close>, which comes before the
  check of the path: no host query, no directory creation and no capture-start command
  follow.
\<close>

theorem StartVMCapture_absolute_path:
  assumes "filepath_IsAbs (o_captureFile opts)"
  shows "fst (StartVMCapture env opts h) \<noteq> None
         \<and> snd (StartVMCapture env opts h) =
             h @ [\<lparr>Namespace = o_ns opts, Command = ''capture'', Columns = [''interface'', ''path''],
                   Filters = []\<rparr>]"
proof (cases "GetVMCaptures env (o_ns opts) (o_vm opts) h")
  case (Pair r h1)
  with GetVMCaptures_history[of env "o_ns opts" "o_vm opts" h]
  have h1: "h1 = h @ [\<lparr>Namespace = o_ns opts, Command = ''capture'', Columns = [''interface'', ''path''],
                   Filters = []\<rparr>]"
    by simp
  from Pair assms show ?thesis
    unfolding h1 by (cases r) (simp_all add: StartVMCapture_def)
qed

theorem StartVMCapture_absolute_path_witness:
  "filepath_IsAbs ''/tmp/vm1.pcap''
   \<and> StartVMCapture accepting (test_opts\<lparr>o_captureFile := ''/tmp/vm1.pcap''\<rparr>) [] =
       (Some (Errorf ''path for capture file should not be absolute''),
        [\<lparr>Namespace = ''exp1'', Command = ''capture'', Columns = [''interface'', ''path''], Filters = []\<rparr>])"
proof -
  have a: "filepath_IsAbs (o_captureFile (test_opts\<lparr>o_captureFile := ''/tmp/vm1.pcap''\<rparr>))"
    by (simp add: filepath_IsAbs_def strings_HasPrefix_def)
  have b: "fst (StartVMCapture accepting (test_opts\<lparr>o_captureFile := ''/tmp/vm1.pcap''\<rparr>) []) =
       Some (Errorf ''path for capture file should not be absolute'')"
    by (simp add: StartVMCapture_def GetVMCaptures_def GetExperimentCaptures_def accepting_def
        test_opts_def filepath_IsAbs_def strings_HasPrefix_def)
  from StartVMCapture_absolute_path[OF a, of accepting "[]"] a b show ?thesis
    by (simp add: prod_eq_iff test_opts_def)
qed

text \<open>
  Claim C5 as stated fails: the call has issued a command to the controller by the time
  it rejects the path.
\<close>

theorem StartVMCapture_absolute_path_issues_query:
  "snd (StartVMCapture accepting (test_opts\<lparr>o_captureFile := ''/tmp/vm1.pcap''\<rparr>) []) \<noteq> []
   \<and> map Command (snd (StartVMCapture accepting (test_opts\<lparr>o_captureFile := ''/tmp/vm1.pcap''\<rparr>) []))
       = [''capture'']"
  by (simp add: StartVMCapture_def GetVMCaptures_def GetExperimentCaptures_def accepting_def
      test_opts_def filepath_IsAbs_def strings_HasPrefix_def)

lemma captureRows_undecodable:
  "\<not> list_all rowDecodes rows \<Longrightarrow> captureRows rows = Inl Panic_index_out_of_range"
proof (induction rows)
  case Nil
  then show ?case by simp
next
  case (Cons row rows)
  show ?case
  proof (cases "rowDecodes row")
    case True
    with Cons.prems have "\<not> list_all rowDecodes rows"
      by simp
    from Cons.IH[OF this] True show ?thesis
      by (simp add: rowDecodes_def Let_def)
  next
    case False
    then show ?thesis
      by (simp add: rowDecodes_def Let_def)
  qed
qed

lemma captureRows_decoded:
  assumes "list_all rowDecodes rows"
  shows "\<exists>captures. captureRows rows = Inr captures
           \<and> (list_ex (\<lambda>capture. Capture_VM capture = vm \<and> Capture_Interface capture = iface) captures
                \<longleftrightarrow> list_ex (rowCovers vm iface) rows)"
  using assms
proof (induction rows)
  case Nil
  then show ?case by simp
next
  case (Cons row rows)
  from Cons.prems have d: "rowDecodes row" and ds: "list_all rowDecodes rows"
    by simp_all
  from Cons.IH[OF ds] obtain captures where c: "captureRows rows = Inr captures"
    and e: "list_ex (\<lambda>capture. Capture_VM capture = vm \<and> Capture_Interface capture = iface) captures
              \<longleftrightarrow> list_ex (rowCovers vm iface) rows"
    by auto
  let ?cell = "strings_Split (row_get row ''interface'') '':''"
  let ?c = "\<lparr>Capture_VM = ?cell ! 0, Capture_Interface = fst (strconv_Atoi (?cell ! 1)),
             Capture_Filepath = row_get row ''path''\<rparr>"
  from d c have cr: "captureRows (row # rows) = Inr (?c # captures)"
    by (simp add: rowDecodes_def Let_def)
  from d have cov: "rowCovers vm iface row \<longleftrightarrow> ?cell ! 0 = vm \<and> fst (strconv_Atoi (?cell ! 1)) = iface"
    by (simp add: rowDecodes_def rowCovers_def Let_def)
  have "list_ex (\<lambda>capture. Capture_VM capture = vm \<and> Capture_Interface capture = iface) (?c # captures)
          \<longleftrightarrow> list_ex (rowCovers vm iface) (row # rows)"
    by (simp add: e cov)
  with cr show ?case
    by simp
qed

lemma list_ex_filter_conj: "list_ex P (filter Q xs) \<longleftrightarrow> list_ex (\<lambda>x. Q x \<and> P x) xs"
  by (induction xs) auto

text \<open>
  Claim C6, amended. Say that some row of the capture table, as the controller returns
  it to the capture listing of the call, reports a capture on the requested interface of
  the target VM. Then the call fails, and the capture listing is the only command it has
  issued: no directory is created and no capture is started. It fails with
  \<open>ErrCaptureExists\<close> when every row of the table decodes, and in the panic of
  \<^verbatim>\<open>GetExperimentCaptures\<close> (index out of range) when some row does not.
\<close>

theorem StartVMCapture_capture_exists:
  assumes "list_ex (rowCovers (o_vm opts) (o_captureIface opts))
             (RunTabular env h
                \<lparr>Namespace = o_ns opts, Command = ''capture'', Columns = [''interface'', ''path''],
                 Filters = []\<rparr>)"
  shows "StartVMCapture env opts h =
           (Some (if list_all rowDecodes
                       (RunTabular env h
                          \<lparr>Namespace = o_ns opts, Command = ''capture'',
                           Columns = [''interface'', ''path''], Filters = []\<rparr>)
                  then ErrCaptureExists else Panic_index_out_of_range),
            h @ [\<lparr>Namespace = o_ns opts, Command = ''capture'', Columns = [''interface'', ''path''],
                  Filters = []\<rparr>])"
proof -
  let ?cmd = "\<lparr>Namespace = o_ns opts, Command = ''capture'', Columns = [''interface'', ''path''],
               Filters = []\<rparr>"
  let ?rows = "RunTabular env h ?cmd"
  show ?thesis
  proof (cases "list_all rowDecodes ?rows")
    case True
    from captureRows_decoded[OF True, of "o_vm opts" "o_captureIface opts"] assms
    obtain captures where c: "captureRows ?rows = Inr captures"
      and e: "list_ex (\<lambda>capture. Capture_VM capture = o_vm opts
                \<and> Capture_Interface capture = o_captureIface opts) captures"
      by auto
    from e have "list_ex (\<lambda>capture. Capture_Interface capture = o_captureIface opts)
                   (filter (\<lambda>capture. Capture_VM capture = o_vm opts) captures)"
      by (simp add: list_ex_filter_conj)
    with c True show ?thesis
      by (simp add: StartVMCapture_def GetVMCaptures_def GetExperimentCaptures_def
          NewNamespacedCommand_def NewCommand_def)
  next
    case False
    from captureRows_undecodable[OF False] False show ?thesis
      by (simp add: StartVMCapture_def GetVMCaptures_def GetExperimentCaptures_def
          NewNamespacedCommand_def NewCommand_def)
  qed
qed

lemma capturing_rows:
  "RunTabular capturing h
     \<lparr>Namespace = ''exp1'', Command = ''capture'', Columns = [''interface'', ''path''], Filters = []\<rparr>
     = [[''interface'' \<mapsto> ''vm1:0'', ''path'' \<mapsto> ''old.pcap'']]"
  by (simp add: capturing_def)

lemma split_examples:
  "strings_Split ''vm1:0'' '':'' = [''vm1'', ''0'']"
  "strings_Split ''mega_bridge'' '':'' = [''mega_bridge'']"
  by (simp_all add: strings_Split.simps strings_HasPrefix_def)

lemma Atoi_0: "strconv_Atoi ''0'' = (0, None)"
  by (simp add: strconv_Atoi_def isDigit_def digitVal_def)

theorem StartVMCapture_capture_exists_witness:
  "list_ex (rowCovers (o_vm test_opts) (o_captureIface test_opts))
     (RunTabular capturing []
        \<lparr>Namespace = o_ns test_opts, Command = ''capture'', Columns = [''interface'', ''path''],
         Filters = []\<rparr>)
   \<and> list_all rowDecodes
       (RunTabular capturing []
          \<lparr>Namespace = o_ns test_opts, Command = ''capture'', Columns = [''interface'', ''path''],
           Filters = []\<rparr>)
   \<and> StartVMCapture capturing test_opts [] =
       (Some ErrCaptureExists,
        [\<lparr>Namespace = ''exp1'', Command = ''capture'', Columns = [''interface'', ''path''], Filters = []\<rparr>])"
proof -
  have a: "list_ex (rowCovers (o_vm test_opts) (o_captureIface test_opts))
     (RunTabular capturing []
        \<lparr>Namespace = o_ns test_opts, Command = ''capture'', Columns = [''interface'', ''path''],
         Filters = []\<rparr>)"
    by (simp add: test_opts_def capturing_rows rowCovers_def row_get_def split_examples Atoi_0)
  have b: "list_all rowDecodes
       (RunTabular capturing []
          \<lparr>Namespace = o_ns test_opts, Command = ''capture'', Columns = [''interface'', ''path''],
           Filters = []\<rparr>)"
    by (simp add: test_opts_def capturing_rows rowDecodes_def row_get_def split_examples)
  from StartVMCapture_capture_exists[OF a] a b show ?thesis
    by (simp add: test_opts_def)
qed

text \<open>
  Claim C6 as stated fails: with a capture on interface 0 of the target VM in the table,
  and a second row whose interface cell has no colon, the call for interface 0 does not
  return \<open>ErrCaptureExists\<close>; it panics.
\<close>

theorem StartVMCapture_undecodable_row:
  "list_ex (rowCovers ''vm1'' 0)
     (RunTabular bridge_capturing []
        \<lparr>Namespace = ''exp1'', Command = ''capture'', Columns = [''interface'', ''path''], Filters = []\<rparr>)
   \<and> o_vm test_opts = ''vm1'' \<and> o_captureIface test_opts = 0
   \<and> StartVMCapture bridge_capturing test_opts [] =
       (Some Panic_index_out_of_range,
        [\<lparr>Namespace = ''exp1'', Command = ''capture'', Columns = [''interface'', ''path''], Filters = []\<rparr>])
   \<and> fst (StartVMCapture bridge_capturing test_opts []) \<noteq> Some ErrCaptureExists"
  by (simp add: StartVMCapture_def GetVMCaptures_def GetExperimentCaptures_def bridge_capturing_def
      test_opts_def rowCovers_def row_get_def split_examples Atoi_0 NewNamespacedCommand_def
      NewCommand_def Let_def)

lemma capturing_captures:
  "GetVMCaptures capturing ''exp1'' ''vm1'' [] =
     (Inr [\<lparr>Capture_VM = ''vm1'', Capture_Interface = 0, Capture_Filepath = ''old.pcap''\<rparr>],
      [\<lparr>Namespace = ''exp1'', Command = ''capture'', Columns = [''interface'', ''path''], Filters = []\<rparr>])"
  by (simp add: GetVMCaptures_def GetExperimentCaptures_def capturing_def row_get_def
      split_examples Atoi_0 NewNamespacedCommand_def NewCommand_def Let_def)


section \<open>GetClusterHosts\<close>

lemma clusterLoop_result:
  "clusterLoop env hosts head cluster =
     (head\<lparr>Host_Schedulable := Host_Schedulable head \<or> (\<exists>n \<in> set hosts. Host_Name n = Host_Name head)\<rparr>,
      cluster @ map (\<lambda>n. n\<lparr>Host_Name := TrimHostnameSuffixes env (Host_Name n), Host_Schedulable := True\<rparr>)
                   (filter (\<lambda>n. Host_Name n \<noteq> Host_Name head) hosts))"
proof (induction hosts arbitrary: head cluster)
  case Nil
  then show ?case by simp
next
  case (Cons host hosts)
  show ?case
  proof (cases "Host_Name host = Host_Name head")
    case True
    then show ?thesis
      by (simp add: Cons.IH)
  next
    case False
    then show ?thesis
      by (simp add: Cons.IH)
  qed
qed

lemma GetClusterHosts_result:
  assumes "processNamespaceHosts env ''minimega'' h = (head0 # others, h1)"
    and "processNamespaceHosts env ''__phenix__'' (snd (ClearNamespace env ''__phenix__'' h1)) = (nodes, h3)"
  shows "GetClusterHosts env schedOnly h =
     (Inr (map (\<lambda>n. n\<lparr>Host_Name := TrimHostnameSuffixes env (Host_Name n), Host_Schedulable := True\<rparr>)
             (filter (\<lambda>n. Host_Name n \<noteq> Host_Name head0) nodes)
           @ (if schedOnly \<and> \<not> (\<exists>n \<in> set nodes. Host_Name n = Host_Name head0) then []
              else [head0\<lparr>Host_Name := TrimHostnameSuffixes env (Host_Name head0),
                          Host_Schedulable := (\<exists>n \<in> set nodes. Host_Name n = Host_Name head0),
                          Host_Headnode := True\<rparr>])),
      h3)"
proof -
  obtain r h2 where c: "ClearNamespace env ''__phenix__'' h1 = (r, h2)"
    by (cases "ClearNamespace env ''__phenix__'' h1")
  with assms(2) have p: "processNamespaceHosts env ''__phenix__'' h2 = (nodes, h3)"
    by simp
  show ?thesis
    unfolding GetClusterHosts_def
    by (auto simp add: assms(1) c p clusterLoop_result Let_def)
qed

text \<open>
  Claim C7, amended. Let the first host of namespace \<^verbatim>\<open>minimega\<close> be the head node and let
  the hosts of the discovery namespace be the compute nodes. The names are compared as
  the controller reports them, before any suffix is trimmed. The call returns every
  compute node that does not report the head node's name, with its name trimmed and
  marked schedulable, and then, last, the head node, marked \<open>headnode\<close>, and schedulable
  exactly when some compute node reports its name; with \<open>schedOnly\<close> a head node that was
  never marked schedulable is left out. So, with \<open>schedOnly\<close>, on a single-node cluster (the
  one compute node reports the head node's name) the call returns exactly the head node,
  marked \<open>headnode\<close> and \<open>schedulable\<close>; and on a cluster where no compute node reports the
  head node's name it returns every compute node, marked schedulable, and without
  \<open>schedOnly\<close> the head node after them, marked \<open>headnode\<close> and not schedulable.
\<close>

theorem GetClusterHosts_cases:
  assumes "processNamespaceHosts env ''minimega'' h = (head0 # others, h1)"
    and "processNamespaceHosts env ''__phenix__'' (snd (ClearNamespace env ''__phenix__'' h1)) = (nodes, h3)"
  shows "GetClusterHosts env schedOnly h =
           (Inr (map (\<lambda>n. n\<lparr>Host_Name := TrimHostnameSuffixes env (Host_Name n), Host_Schedulable := True\<rparr>)
                   (filter (\<lambda>n. Host_Name n \<noteq> Host_Name head0) nodes)
                 @ (if schedOnly \<and> \<not> list_ex (\<lambda>n. Host_Name n = Host_Name head0) nodes then []
                    else [head0\<lparr>Host_Name := TrimHostnameSuffixes env (Host_Name head0),
                                Host_Schedulable := list_ex (\<lambda>n. Host_Name n = Host_Name head0) nodes,
                                Host_Headnode := True\<rparr>])),
            h3)
       \<and> (nodes = [node] \<and> Host_Name node = Host_Name head0 \<longrightarrow>
            GetClusterHosts env True h =
              (Inr [head0\<lparr>Host_Name := TrimHostnameSuffixes env (Host_Name head0),
                           Host_Schedulable := True, Host_Headnode := True\<rparr>], h3))
       \<and> (list_all (\<lambda>n. Host_Name n \<noteq> Host_Name head0) nodes \<longrightarrow>
            GetClusterHosts env True h =
              (Inr (map (\<lambda>n. n\<lparr>Host_Name := TrimHostnameSuffixes env (Host_Name n),
                                 Host_Schedulable := True\<rparr>) nodes), h3)
            \<and> GetClusterHosts env False h =
              (Inr (map (\<lambda>n. n\<lparr>Host_Name := TrimHostnameSuffixes env (Host_Name n),
                                 Host_Schedulable := True\<rparr>) nodes
                    @ [head0\<lparr>Host_Name := TrimHostnameSuffixes env (Host_Name head0),
                              Host_Schedulable := False, Host_Headnode := True\<rparr>]), h3))"
proof -
  have general: "GetClusterHosts env schedOnly h =
           (Inr (map (\<lambda>n. n\<lparr>Host_Name := TrimHostnameSuffixes env (Host_Name n), Host_Schedulable := True\<rparr>)
                   (filter (\<lambda>n. Host_Name n \<noteq> Host_Name head0) nodes)
                 @ (if schedOnly \<and> \<not> list_ex (\<lambda>n. Host_Name n = Host_Name head0) nodes then []
                    else [head0\<lparr>Host_Name := TrimHostnameSuffixes env (Host_Name head0),
                                Host_Schedulable := list_ex (\<lambda>n. Host_Name n = Host_Name head0) nodes,
                                Host_Headnode := True\<rparr>])),
            h3)"
    using GetClusterHosts_result[OF assms, of schedOnly] by (simp add: list_ex_iff)
  have single: "GetClusterHosts env True h =
              (Inr [head0\<lparr>Host_Name := TrimHostnameSuffixes env (Host_Name head0),
                           Host_Schedulable := True, Host_Headnode := True\<rparr>], h3)"
    if "nodes = [node]" "Host_Name node = Host_Name head0"
    using that GetClusterHosts_result[OF assms, of True] by simp
  have multi: "GetClusterHosts env True h =
              (Inr (map (\<lambda>n. n\<lparr>Host_Name := TrimHostnameSuffixes env (Host_Name n),
                                 Host_Schedulable := True\<rparr>) nodes), h3)
            \<and> GetClusterHosts env False h =
              (Inr (map (\<lambda>n. n\<lparr>Host_Name := TrimHostnameSuffixes env (Host_Name n),
                                 Host_Schedulable := True\<rparr>) nodes
                    @ [head0\<lparr>Host_Name := TrimHostnameSuffixes env (Host_Name head0),
                              Host_Schedulable := False, Host_Headnode := True\<rparr>]), h3)"
    if "list_all (\<lambda>n. Host_Name n \<noteq> Host_Name head0) nodes"
  proof -
    from that have a: "\<forall>n \<in> set nodes. Host_Name n \<noteq> Host_Name head0"
      by (simp add: list_all_iff)
    from a have f: "filter (\<lambda>n. Host_Name n \<noteq> Host_Name head0) nodes = nodes"
      by (simp add: filter_id_conv)
    from a have e: "\<not> (\<exists>n \<in> set nodes. Host_Name n = Host_Name head0)"
      by simp
    show ?thesis
      using GetClusterHosts_result[OF assms, of True] GetClusterHosts_result[OF assms, of False]
      unfolding f using e by simp
  qed
  from general single multi show ?thesis
    by blast
qed

lemma cluster_env_hosts:
  "processNamespaceHosts (cluster_env headnode nodes) ''minimega'' h =
     ([hostOfRow (cluster_env headnode nodes) [''host'' \<mapsto> headnode]],
      h @ [\<lparr>Namespace = ''minimega'', Command = ''host'', Columns = [], Filters = []\<rparr>])"
  "processNamespaceHosts (cluster_env headnode nodes) ''__phenix__'' h =
     (map (\<lambda>n. hostOfRow (cluster_env headnode nodes) [''host'' \<mapsto> n]) nodes,
      h @ [\<lparr>Namespace = ''__phenix__'', Command = ''host'', Columns = [], Filters = []\<rparr>])"
  by (simp_all add: processNamespaceHosts_def cluster_env_def NewNamespacedCommand_def NewCommand_def
      comp_def)

lemma cluster_env_name:
  "Host_Name (hostOfRow env [''host'' \<mapsto> n]) = n"
  "Host_Headnode (hostOfRow env [''host'' \<mapsto> n]) = False"
  "Host_Schedulable (hostOfRow env [''host'' \<mapsto> n]) = False"
  by (simp_all add: hostOfRow_def row_get_def Let_def)

lemma cluster_env_trim: "TrimHostnameSuffixes (cluster_env headnode nodes) = trimSuffixes"
  by (simp add: cluster_env_def test_env_def)

lemma trimSuffixes_examples:
  "trimSuffixes ''node1'' = ''node1''" "trimSuffixes ''node2'' = ''node2''"
  "trimSuffixes ''node3'' = ''node3''" "trimSuffixes ''node1-minimega'' = ''node1''"
  by (simp_all add: trimSuffixes_def strings_TrimSuffix_def strings_HasSuffix_def)

theorem GetClusterHosts_cases_witness:
  "processNamespaceHosts single_node ''minimega'' [] =
     ([hostOfRow single_node [''host'' \<mapsto> ''node1'']],
      [\<lparr>Namespace = ''minimega'', Command = ''host'', Columns = [], Filters = []\<rparr>])
   \<and> fst (processNamespaceHosts single_node ''__phenix__''
        (snd (ClearNamespace single_node ''__phenix__''
           [\<lparr>Namespace = ''minimega'', Command = ''host'', Columns = [], Filters = []\<rparr>])))
       = [hostOfRow single_node [''host'' \<mapsto> ''node1'']]
   \<and> host_flags (GetClusterHosts single_node True []) = [(''node1'', True, True)]
   \<and> processNamespaceHosts two_nodes ''minimega'' [] =
     ([hostOfRow two_nodes [''host'' \<mapsto> ''node1'']],
      [\<lparr>Namespace = ''minimega'', Command = ''host'', Columns = [], Filters = []\<rparr>])
   \<and> fst (processNamespaceHosts two_nodes ''__phenix__''
        (snd (ClearNamespace two_nodes ''__phenix__''
           [\<lparr>Namespace = ''minimega'', Command = ''host'', Columns = [], Filters = []\<rparr>])))
       = [hostOfRow two_nodes [''host'' \<mapsto> ''node2''], hostOfRow two_nodes [''host'' \<mapsto> ''node3'']]
   \<and> Host_Name (hostOfRow two_nodes [''host'' \<mapsto> ''node2''])
         \<noteq> Host_Name (hostOfRow two_nodes [''host'' \<mapsto> ''node1''])
   \<and> Host_Name (hostOfRow two_nodes [''host'' \<mapsto> ''node3''])
         \<noteq> Host_Name (hostOfRow two_nodes [''host'' \<mapsto> ''node1''])
   \<and> host_flags (GetClusterHosts two_nodes True []) = [(''node2'', False, True), (''node3'', False, True)]
   \<and> host_flags (GetClusterHosts two_nodes False []) =
       [(''node2'', False, True), (''node3'', False, True), (''node1'', True, False)]
   \<and> processNamespaceHosts head_and_node ''minimega'' [] =
     ([hostOfRow head_and_node [''host'' \<mapsto> ''node1'']],
      [\<lparr>Namespace = ''minimega'', Command = ''host'', Columns = [], Filters = []\<rparr>])
   \<and> fst (processNamespaceHosts head_and_node ''__phenix__''
        (snd (ClearNamespace head_and_node ''__phenix__''
           [\<lparr>Namespace = ''minimega'', Command = ''host'', Columns = [], Filters = []\<rparr>])))
       = [hostOfRow head_and_node [''host'' \<mapsto> ''node1''], hostOfRow head_and_node [''host'' \<mapsto> ''node2'']]
   \<and> host_flags (GetClusterHosts head_and_node True []) = [(''node2'', False, True), (''node1'', True, True)]
   \<and> host_flags (GetClusterHosts head_and_node False []) = [(''node2'', False, True), (''node1'', True, True)]"
proof -
  let ?hc = "\<lparr>Namespace = ''minimega'', Command = ''host'', Columns = [], Filters = []\<rparr>"
  let ?h1 = "hostOfRow single_node [''host'' \<mapsto> ''node1'']"
  have s1: "processNamespaceHosts single_node ''minimega'' [] = (?h1 # [], [?hc])"
    by (simp add: single_node_def cluster_env_hosts)
  obtain h3 where s2: "processNamespaceHosts single_node ''__phenix__''
        (snd (ClearNamespace single_node ''__phenix__'' [?hc])) = ([?h1], h3)"
    by (simp add: single_node_def cluster_env_hosts)
  have s3: "[?h1] = [?h1] \<and> Host_Name ?h1 = Host_Name ?h1"
    by simp
  let ?t1 = "hostOfRow two_nodes [''host'' \<mapsto> ''node1'']"
  let ?t2 = "hostOfRow two_nodes [''host'' \<mapsto> ''node2'']"
  let ?t3 = "hostOfRow two_nodes [''host'' \<mapsto> ''node3'']"
  have t1: "processNamespaceHosts two_nodes ''minimega'' [] = (?t1 # [], [?hc])"
    by (simp add: two_nodes_def cluster_env_hosts)
  obtain k3 where t2: "processNamespaceHosts two_nodes ''__phenix__''
        (snd (ClearNamespace two_nodes ''__phenix__'' [?hc])) = ([?t2, ?t3], k3)"
    by (simp add: two_nodes_def cluster_env_hosts)
  have t3: "list_all (\<lambda>n. Host_Name n \<noteq> Host_Name ?t1) [?t2, ?t3]"
    by (simp add: cluster_env_name)
  let ?m1 = "hostOfRow head_and_node [''host'' \<mapsto> ''node1'']"
  let ?m2 = "hostOfRow head_and_node [''host'' \<mapsto> ''node2'']"
  have m1: "processNamespaceHosts head_and_node ''minimega'' [] = (?m1 # [], [?hc])"
    by (simp add: head_and_node_def cluster_env_hosts)
  obtain j3 where m2: "processNamespaceHosts head_and_node ''__phenix__''
        (snd (ClearNamespace head_and_node ''__phenix__'' [?hc])) = ([?m1, ?m2], j3)"
    by (simp add: head_and_node_def cluster_env_hosts)
  from GetClusterHosts_cases[OF s1 s2, of True ?h1] s3
  have a: "host_flags (GetClusterHosts single_node True []) = [(''node1'', True, True)]"
    by (simp add: host_flags_def cluster_env_name single_node_def cluster_env_trim trimSuffixes_examples)
  from GetClusterHosts_cases[OF t1 t2, of True] t3
  have b: "host_flags (GetClusterHosts two_nodes True []) = [(''node2'', False, True), (''node3'', False, True)]
     \<and> host_flags (GetClusterHosts two_nodes False []) =
       [(''node2'', False, True), (''node3'', False, True), (''node1'', True, False)]"
    by (simp add: host_flags_def cluster_env_name two_nodes_def cluster_env_trim trimSuffixes_examples)
  from GetClusterHosts_cases[OF m1 m2, of True, THEN conjunct1]
  have c: "host_flags (GetClusterHosts head_and_node True []) = [(''node2'', False, True), (''node1'', True, True)]"
    by (simp add: host_flags_def cluster_env_name head_and_node_def cluster_env_trim trimSuffixes_examples)
  from GetClusterHosts_cases[OF m1 m2, of False, THEN conjunct1]
  have d: "host_flags (GetClusterHosts head_and_node False []) = [(''node2'', False, True), (''node1'', True, True)]"
    by (simp add: host_flags_def cluster_env_name head_and_node_def cluster_env_trim trimSuffixes_examples)
  from s1 s2 t1 t2 t3 m1 m2 a b c d show ?thesis
    by (simp add: cluster_env_name)
qed

text \<open>
  Claim C7 as stated fails where it compares normalized names: a compute node whose
  normalized name is the head node's, but whose reported name is not, is kept as a host
  of its own, and with \<open>schedOnly\<close> the one host returned is not the head node.
\<close>

theorem GetClusterHosts_suffixed_name:
  "TrimHostnameSuffixes suffixed ''node1-minimega'' = TrimHostnameSuffixes suffixed ''node1''
   \<and> map Host_Name (fst (processNamespaceHosts suffixed ''minimega'' [])) = [''node1'']
   \<and> map Host_Name (fst (processNamespaceHosts suffixed ''__phenix__'' [])) = [''node1-minimega'']
   \<and> host_flags (GetClusterHosts suffixed True []) = [(''node1'', False, True)]"
proof -
  let ?hc = "\<lparr>Namespace = ''minimega'', Command = ''host'', Columns = [], Filters = []\<rparr>"
  let ?u1 = "hostOfRow suffixed [''host'' \<mapsto> ''node1'']"
  let ?u2 = "hostOfRow suffixed [''host'' \<mapsto> ''node1-minimega'']"
  have u1: "processNamespaceHosts suffixed ''minimega'' [] = (?u1 # [], [?hc])"
    by (simp add: suffixed_def cluster_env_hosts)
  obtain k3 where u2: "processNamespaceHosts suffixed ''__phenix__''
        (snd (ClearNamespace suffixed ''__phenix__'' [?hc])) = ([?u2], k3)"
    by (simp add: suffixed_def cluster_env_hosts)
  from GetClusterHosts_result[OF u1 u2, of True]
  have "host_flags (GetClusterHosts suffixed True []) = [(''node1'', False, True)]"
    by (simp add: host_flags_def cluster_env_name suffixed_def cluster_env_trim trimSuffixes_examples)
  then show ?thesis
    by (simp add: suffixed_def cluster_env_hosts cluster_env_name cluster_env_trim trimSuffixes_examples
        comp_def)
qed

section \<open>GetVMInfo\<close>

lemma disk_queries_answered_append:
  "disk_queries_answered env h (cs @ ds) \<longleftrightarrow>
     disk_queries_answered env h cs \<and> disk_queries_answered env (h @ cs) ds"
  by (induction cs arbitrary: h) auto

lemma captureRows_panic: "captureRows rows = Inl e \<Longrightarrow> e = Panic_index_out_of_range"
  by (induction rows arbitrary: e) (auto simp: Let_def split: if_splits sum.splits)

lemma GetVMCaptures_cases:
  obtains (panic) "GetVMCaptures env ns vm h =
        (Inl Panic_index_out_of_range,
         h @ [\<lparr>Namespace = ns, Command = ''capture'', Columns = [''interface'', ''path''], Filters = []\<rparr>])"
  | (captures) captures where "GetVMCaptures env ns vm h =
        (Inr captures,
         h @ [\<lparr>Namespace = ns, Command = ''capture'', Columns = [''interface'', ''path''], Filters = []\<rparr>])"
proof (cases "captureRows (RunTabular env h
     \<lparr>Namespace = ns, Command = ''capture'', Columns = [''interface'', ''path''], Filters = []\<rparr>)")
  case (Inl e)
  with captureRows_panic[OF Inl] panic show ?thesis
    by (simp add: GetVMCaptures_def GetExperimentCaptures_def NewNamespacedCommand_def NewCommand_def Let_def)
next
  case (Inr cs)
  with captures show ?thesis
    by (simp add: GetVMCaptures_def GetExperimentCaptures_def NewNamespacedCommand_def NewCommand_def Let_def)
qed

lemma vmInfoRow_Inr:
  assumes "vmInfoRow env ns row h = (Inr vm, h')"
  shows "strings_Fields (Unicode env) (row_get row ''disks'') \<noteq> []
         \<and> (\<exists>cs. h' = h @ cs \<and> disk_queries_answered env h cs)"
proof (cases rule: GetVMCaptures_cases[of env ns "row_get row ''name''" h])
  case panic
  with assms show ?thesis
    by (simp add: vmInfoRow_def Let_def)
next
  case (captures cs)
  let ?cap = "\<lparr>Namespace = ns, Command = ''capture'', Columns = [''interface'', ''path''], Filters = []\<rparr>"
  let ?di = "NewCommand\<lparr>Command := ''disk info '' @
        hd (strings_Split (hd (strings_Fields (Unicode env) (row_get row ''disks''))) '','')\<rparr>"
  from assms captures have f: "strings_Fields (Unicode env) (row_get row ''disks'') \<noteq> []"
    by (auto simp add: vmInfoRow_def Let_def split: if_splits)
  with assms captures have q: "RunTabular env (h @ [?cap]) ?di \<noteq> []" and h': "h' = h @ [?cap, ?di]"
    by (auto simp add: vmInfoRow_def Let_def split: if_splits)
  have "disk_queries_answered env h [?cap, ?di]"
    using q by (simp add: strings_HasPrefix_def)
  with f h' show ?thesis
    by blast
qed

lemma vmInfoRow_Inl:
  assumes "vmInfoRow env ns row h = (Inl e, h')"
  shows "e = Panic_index_out_of_range"
proof (cases rule: GetVMCaptures_cases[of env ns "row_get row ''name''" h])
  case panic
  with assms show ?thesis
    by (simp add: vmInfoRow_def Let_def)
next
  case (captures cs)
  with assms show ?thesis
    by (auto simp add: vmInfoRow_def Let_def split: if_splits)
qed

lemma vmInfoLoop_Inr:
  "vmInfoLoop env ns rows vms h = (Inr vms', h') \<Longrightarrow>
     list_all (\<lambda>row. strings_Fields (Unicode env) (row_get row ''disks'') \<noteq> []) rows
     \<and> (\<exists>cs. h' = h @ cs \<and> disk_queries_answered env h cs)"
proof (induction rows arbitrary: vms h)
  case Nil
  then show ?case by simp
next
  case (Cons row rows)
  obtain r h1 where row: "vmInfoRow env ns row h = (r, h1)"
    by (cases "vmInfoRow env ns row h")
  with Cons.prems obtain vm where r: "r = Inr vm"
    by (cases r) auto
  from row r Cons.prems have loop: "vmInfoLoop env ns rows (vms @ [vm]) h1 = (Inr vms', h')"
    by simp
  from vmInfoRow_Inr[OF row[unfolded r]] obtain cs where
    f: "strings_Fields (Unicode env) (row_get row ''disks'') \<noteq> []"
    and cs: "h1 = h @ cs" "disk_queries_answered env h cs"
    by blast
  from Cons.IH[OF loop] obtain ds where
    fs: "list_all (\<lambda>row. strings_Fields (Unicode env) (row_get row ''disks'') \<noteq> []) rows"
    and ds: "h' = h1 @ ds" "disk_queries_answered env h1 ds"
    by blast
  from cs ds have "h' = h @ (cs @ ds)" "disk_queries_answered env h (cs @ ds)"
    by (simp_all add: disk_queries_answered_append)
  with f fs show ?case
    by auto
qed

lemma vmInfoLoop_Inl:
  "vmInfoLoop env ns rows vms h = (Inl e, h') \<Longrightarrow> e = Panic_index_out_of_range"
proof (induction rows arbitrary: vms h)
  case Nil
  then show ?case by simp
next
  case (Cons row rows)
  obtain r h1 where row: "vmInfoRow env ns row h = (r, h1)"
    by (cases "vmInfoRow env ns row h")
  show ?case
  proof (cases r)
    case (Inl e')
    with row Cons.prems vmInfoRow_Inl[of env ns row h e' h1] show ?thesis
      by simp
  next
    case (Inr vm)
    with row Cons.prems have "vmInfoLoop env ns rows (vms @ [vm]) h1 = (Inl e, h')"
      by simp
    from Cons.IH[OF this] show ?thesis .
  qed
qed

lemma GetVMInfo_outcomes:
  fixes env opts h
  defines "cmd \<equiv> \<lparr>Namespace = o_ns opts, Command = ''vm info'',
             Columns = [''host'', ''name'', ''state'', ''uptime'', ''vlan'', ''tap'', ''memory'', ''vcpus'',
                        ''disks''],
             Filters = (if o_vm opts \<noteq> [] then [''name='' @ o_vm opts] else [])\<rparr>"
  shows "GetVMInfo env opts h = (Inr vms, h') \<Longrightarrow>
           list_all (\<lambda>row. strings_Fields (Unicode env) (row_get row ''disks'') \<noteq> []) (RunTabular env h cmd)
           \<and> disk_queries_answered env h (drop (length h) h')"
    and "GetVMInfo env opts h = (Inl e, h') \<Longrightarrow> e = Panic_index_out_of_range"
proof -
  have def: "GetVMInfo env opts h = vmInfoLoop env (o_ns opts) (RunTabular env h cmd) [] (h @ [cmd])"
    by (simp add: GetVMInfo_def NewNamespacedCommand_def NewCommand_def Let_def cmd_def)
  show "list_all (\<lambda>row. strings_Fields (Unicode env) (row_get row ''disks'') \<noteq> []) (RunTabular env h cmd)
           \<and> disk_queries_answered env h (drop (length h) h')"
    if "GetVMInfo env opts h = (Inr vms, h')"
  proof -
    from that def have "vmInfoLoop env (o_ns opts) (RunTabular env h cmd) [] (h @ [cmd]) = (Inr vms, h')"
      by simp
    from vmInfoLoop_Inr[OF this] obtain cs where
      fs: "list_all (\<lambda>row. strings_Fields (Unicode env) (row_get row ''disks'') \<noteq> [])
         (RunTabular env h cmd)"
      and cs: "h' = (h @ [cmd]) @ cs" "disk_queries_answered env (h @ [cmd]) cs"
      by blast
    from cs have "drop (length h) h' = cmd # cs"
      by simp
    with cs(2) have "disk_queries_answered env h (drop (length h) h')"
      by (simp add: strings_HasPrefix_def cmd_def)
    with fs show ?thesis
      by simp
  qed
  show "e = Panic_index_out_of_range" if "GetVMInfo env opts h = (Inl e, h')"
    using that def vmInfoLoop_Inl by simp
qed

text \<open>
  Claim C10. \<^verbatim>\<open>GetVMInfo\<close> either returns its list or ends in the panic of an index out
  of range. It ends in the panic whenever a row of the vm-info table has no entry in its
  \<^verbatim>\<open>disks\<close> cell, and whenever one of the \<^verbatim>\<open>disk info\<close> queries it has issued came back
  without a row: a normal return needs a disk entry in every row and a row from every
  disk query.
\<close>

theorem GetVMInfo_disk_resolution:
  "(fst (GetVMInfo env opts h) = Inl Panic_index_out_of_range \<or> (\<exists>vms. fst (GetVMInfo env opts h) = Inr vms))
   \<and> ((\<exists>row \<in> set (RunTabular env h
            \<lparr>Namespace = o_ns opts, Command = ''vm info'',
             Columns = [''host'', ''name'', ''state'', ''uptime'', ''vlan'', ''tap'', ''memory'', ''vcpus'',
                        ''disks''],
             Filters = (if o_vm opts \<noteq> [] then [''name='' @ o_vm opts] else [])\<rparr>).
          strings_Fields (Unicode env) (row_get row ''disks'') = [])
        \<longrightarrow> fst (GetVMInfo env opts h) = Inl Panic_index_out_of_range)
   \<and> (\<not> disk_queries_answered env h (drop (length h) (snd (GetVMInfo env opts h)))
        \<longrightarrow> fst (GetVMInfo env opts h) = Inl Panic_index_out_of_range)"
proof (cases "GetVMInfo env opts h")
  case (Pair r h')
  show ?thesis
  proof (cases r)
    case (Inl e)
    with Pair GetVMInfo_outcomes(2)[of env opts h e h'] show ?thesis
      by simp
  next
    case (Inr vms)
    with Pair GetVMInfo_outcomes(1)[of env opts h vms h'] show ?thesis
      by (auto simp: list_all_iff)
  qed
qed

lemma one_vm_Unicode: "Unicode (one_vm disks) = test_unicode"
  by (simp add: one_vm_def test_env_def)

text \<open>Three runs: a well-formed table, an empty \<^verbatim>\<open>disks\<close> cell, and a disk the controller does not know.\<close>

lemma one_vm_example:
  "GetVMInfo (one_vm ''/img/vm1_snapshot,writeback'') test_opts [] =
     (Inr [\<lparr>VM_Host = ''node1'', VM_Name = ''vm1'', VM_Running = True, VM_Networks = [''lan'', ''wan''],
            VM_Taps = [], VM_Captures = [], VM_Uptime = Finite 0, VM_RAM = 2048, VM_CPUs = 2,
            VM_Disk = ''/img/base.qc2''\<rparr>],
      [\<lparr>Namespace = ''exp1'', Command = ''vm info'',
        Columns = [''host'', ''name'', ''state'', ''uptime'', ''vlan'', ''tap'', ''memory'', ''vcpus'', ''disks''],
        Filters = [''name=vm1'']\<rparr>,
       \<lparr>Namespace = ''exp1'', Command = ''capture'', Columns = [''interface'', ''path''], Filters = []\<rparr>,
       \<lparr>Namespace = [], Command = ''disk info /img/vm1_snapshot'', Columns = [], Filters = []\<rparr>])"
  by (simp add: GetVMInfo_def vmInfoRow_def GetVMCaptures_def GetExperimentCaptures_def one_vm_def
      test_opts_def test_env_def test_unicode_def row_get_def strings_Fields_def belowRuneSelf_def
      asciiSpace_def decodeList_def strings_TrimPrefix_def strings_TrimSuffix_def strings_HasPrefix_def
      strings_HasSuffix_def strings_Split.simps strconv_Atoi_def isDigit_def digitVal_def
      NewNamespacedCommand_def NewCommand_def Let_def)

lemma one_vm_no_disk:
  "GetVMInfo (one_vm []) test_opts [] =
     (Inl Panic_index_out_of_range,
      [\<lparr>Namespace = ''exp1'', Command = ''vm info'',
        Columns = [''host'', ''name'', ''state'', ''uptime'', ''vlan'', ''tap'', ''memory'', ''vcpus'', ''disks''],
        Filters = [''name=vm1'']\<rparr>,
       \<lparr>Namespace = ''exp1'', Command = ''capture'', Columns = [''interface'', ''path''], Filters = []\<rparr>])"
  by (simp add: GetVMInfo_def vmInfoRow_def GetVMCaptures_def GetExperimentCaptures_def one_vm_def
      test_opts_def test_env_def test_unicode_def row_get_def strings_Fields_def
      NewNamespacedCommand_def NewCommand_def Let_def)

lemma one_vm_unknown_disk:
  "GetVMInfo (one_vm ''/img/gone.qc2'') test_opts [] =
     (Inl Panic_index_out_of_range,
      [\<lparr>Namespace = ''exp1'', Command = ''vm info'',
        Columns = [''host'', ''name'', ''state'', ''uptime'', ''vlan'', ''tap'', ''memory'', ''vcpus'', ''disks''],
        Filters = [''name=vm1'']\<rparr>,
       \<lparr>Namespace = ''exp1'', Command = ''capture'', Columns = [''interface'', ''path''], Filters = []\<rparr>,
       \<lparr>Namespace = [], Command = ''disk info /img/gone.qc2'', Columns = [], Filters = []\<rparr>])"
  by (simp add: GetVMInfo_def vmInfoRow_def GetVMCaptures_def GetExperimentCaptures_def one_vm_def
      test_opts_def test_env_def test_unicode_def row_get_def strings_Fields_def belowRuneSelf_def
      asciiSpace_def strings_HasPrefix_def strings_Split.simps
      NewNamespacedCommand_def NewCommand_def Let_def)

theorem GetVMInfo_disk_resolution_witness:
  "(\<exists>row \<in> set (RunTabular (one_vm []) []
            \<lparr>Namespace = o_ns test_opts, Command = ''vm info'',
             Columns = [''host'', ''name'', ''state'', ''uptime'', ''vlan'', ''tap'', ''memory'', ''vcpus'',
                        ''disks''],
             Filters = (if o_vm test_opts \<noteq> [] then [''name='' @ o_vm test_opts] else [])\<rparr>).
          strings_Fields (Unicode (one_vm [])) (row_get row ''disks'') = [])
   \<and> fst (GetVMInfo (one_vm []) test_opts []) = Inl Panic_index_out_of_range
   \<and> \<not> disk_queries_answered (one_vm ''/img/gone.qc2'') []
         (drop (length ([] :: mmcli_Command list)) (snd (GetVMInfo (one_vm ''/img/gone.qc2'') test_opts [])))
   \<and> fst (GetVMInfo (one_vm ''/img/gone.qc2'') test_opts []) = Inl Panic_index_out_of_range"
proof -
  have a: "\<exists>row \<in> set (RunTabular (one_vm []) []
            \<lparr>Namespace = o_ns test_opts, Command = ''vm info'',
             Columns = [''host'', ''name'', ''state'', ''uptime'', ''vlan'', ''tap'', ''memory'', ''vcpus'',
                        ''disks''],
             Filters = (if o_vm test_opts \<noteq> [] then [''name='' @ o_vm test_opts] else [])\<rparr>).
          strings_Fields (Unicode (one_vm [])) (row_get row ''disks'') = []"
    by (simp add: one_vm_def row_get_def strings_Fields_def)
  have b: "\<not> disk_queries_answered (one_vm ''/img/gone.qc2'') []
         (drop (length ([] :: mmcli_Command list)) (snd (GetVMInfo (one_vm ''/img/gone.qc2'') test_opts [])))"
    by (simp add: one_vm_unknown_disk strings_HasPrefix_def; simp add: one_vm_def)
  from GetVMInfo_disk_resolution[of "one_vm []" test_opts "[]"]
    GetVMInfo_disk_resolution[of "one_vm ''/img/gone.qc2''" test_opts "[]"] a b
  show ?thesis
    by blast
qed

section \<open>RedeployVM\<close>

lemma andThen_simps:
  "andThen (None, h) k = k h"
  "andThen (Some err, h) k = (Some err, h)"
  by (simp_all add: andThen_def)

lemma andThen_unit: "andThen r (\<lambda>h. (None, h)) = r"
  by (cases r; cases "fst r") (auto simp: andThen_def)

lemma run_steps_history:
  "run_steps env ss h = (None, h') \<Longrightarrow> h' = h @ map step_cmd ss"
proof (induction ss arbitrary: h)
  case Nil
  then show ?case by simp
next
  case (Cons s ss)
  from Cons.prems have "run_steps env ss (h @ [step_cmd s]) = (None, h')"
    by (simp split: option.splits)
  from Cons.IH[OF this] show ?case
    by simp
qed

lemma run_steps_append:
  "run_steps env (ss @ ts) h = andThen (run_steps env ss h) (run_steps env ts)"
  by (induction ss arbitrary: h) (auto simp: andThen_def split: option.splits)

text \<open>The equations of \<open>run_steps\<close> as equations between continuations.\<close>

lemma run_steps_fun:
  "run_steps env [] = (\<lambda>h. (None, h))"
  "run_steps env (Exec c msg # ss) = (\<lambda>h. andThen (issue env c msg h) (run_steps env ss))"
  "run_steps env (Lookup c msg # ss) =
     (\<lambda>h. if RunTabular env h c = [] then (Some (Errorf msg), h @ [c]) else run_steps env ss (h @ [c]))"
  "run_steps env (ss @ ts) = (\<lambda>h. andThen (run_steps env ss h) (run_steps env ts))"
  "run_steps env (if b then ss else ts) = (\<lambda>h. if b then run_steps env ss h else run_steps env ts h)"
  by (rule ext; simp add: andThen_def issue_def run_steps_append split: option.split)+

lemma andThen_run_steps_cong:
  assumes "k (h @ map step_cmd ss) = k' (h @ map step_cmd ss)"
  shows "andThen (run_steps env ss h) k = andThen (run_steps env ss h) k'"
proof (cases "run_steps env ss h")
  case (Pair r h')
  show ?thesis
  proof (cases r)
    case None
    with Pair run_steps_history[of env ss h h'] assms show ?thesis
      by (simp add: andThen_def)
  next
    case (Some err)
    with Pair show ?thesis
      by (simp add: andThen_def)
  qed
qed

lemma redeployDisk_run_steps:
  assumes "o_disk opts \<noteq> []"
  shows "redeployDisk env opts h = run_steps env (disk_steps env opts h) h"
proof (cases "o_injects opts = []")
  case True
  with assms show ?thesis
    by (simp add: redeployDisk_def disk_steps_def run_steps_fun andThen_unit Let_def
        del: run_steps.simps)
next
  case False
  let ?q = "(NewNamespacedCommand (o_ns opts))\<lparr>Command := ''vm config disk'', Columns := [''disks''],
                               Filters := [''name='' @ o_vm opts]\<rparr>"
  show ?thesis
  proof (cases "RunTabular env h ?q")
    case Nil
    with assms False show ?thesis
      by (simp add: redeployDisk_def disk_steps_def Let_def)
  next
    case (Cons status rest)
    show ?thesis
    proof (cases "strings_Contains (filepath_Base (row_get status ''disks'')) ''_snapshot''")
      case True
      with assms False Cons show ?thesis
        by (simp add: redeployDisk_def disk_steps_def inject_def run_steps_fun Let_def
            andThen_unit del: run_steps.simps)
           (auto simp: andThen_def issue_def inject_def Let_def split: option.splits)
    next
      case no: False
      with assms False Cons show ?thesis
        by (simp add: redeployDisk_def disk_steps_def run_steps_fun Let_def
            andThen_unit del: run_steps.simps)
    qed
  qed
qed

lemma andThen_assoc: "andThen (andThen r k) k' = andThen r (\<lambda>h. andThen (k h) k')"
  by (cases r; cases "fst r") (auto simp: andThen_def)

lemma andThen_if:
  "andThen (if b then r else r') k = (if b then andThen r k else andThen r' k)"
  by simp

text \<open>The function runs the steps of the spec: the code and the list of steps agree on every controller.\<close>

lemma RedeployVM_run_steps:
  "RedeployVM env opts h = run_steps env (RedeployVM_steps env opts h) h"
proof -
  let ?before = "steps_before_disk opts"
  let ?after = "steps_after_disk opts"
  have disk: "(if o_disk opts \<noteq> [] then redeployDisk env opts h6 else (None, h6))
                = run_steps env (disk_steps env opts h6) h6" for h6
    by (simp add: redeployDisk_run_steps) (simp add: disk_steps_def)
  have "run_steps env (RedeployVM_steps env opts h) h =
          andThen (run_steps env ?before h)
            (\<lambda>h6. andThen (run_steps env (disk_steps env opts (h @ map step_cmd ?before)) h6)
                     (run_steps env ?after))"
    by (simp add: RedeployVM_steps_def run_steps_fun(4))
  also have "\<dots> = andThen (run_steps env ?before h)
            (\<lambda>h6. andThen (run_steps env (disk_steps env opts h6) h6) (run_steps env ?after))"
    by (rule andThen_run_steps_cong) simp
  also have "\<dots> = andThen (run_steps env ?before h)
            (\<lambda>h6. andThen (if o_disk opts \<noteq> [] then redeployDisk env opts h6 else (None, h6))
                     (run_steps env ?after))"
    by (simp only: disk[symmetric])
  also have "\<dots> = RedeployVM env opts h"
    unfolding RedeployVM_def steps_before_disk_def steps_after_disk_def Let_def flush_def
    by (simp add: run_steps_fun andThen_assoc andThen_unit andThen_simps del: run_steps.simps
        cong: if_cong)
  finally show ?thesis
    by simp
qed

lemma run_steps_first_failure:
  "\<exists>done rest. ss = done @ rest
     \<and> snd (run_steps env ss h) = h @ map step_cmd done
     \<and> steps_succeed env h (butlast done)
     \<and> fst (run_steps env ss h) =
         (if done = [] then None else step_error env (h @ map step_cmd (butlast done)) (last done))
     \<and> (fst (run_steps env ss h) = None \<longrightarrow> rest = [])"
proof (induction ss arbitrary: h)
  case Nil
  show ?case by simp
next
  case (Cons s ss)
  show ?case
  proof (cases "step_error env h s")
    case (Some err)
    show ?thesis
      by (rule exI[of _ "[s]"], rule exI[of _ ss]) (simp add: Some)
  next
    case None
    from Cons.IH[of "h @ [step_cmd s]"] obtain d where "\<exists>r. ss = d @ r
      \<and> snd (run_steps env ss (h @ [step_cmd s])) = (h @ [step_cmd s]) @ map step_cmd d
      \<and> steps_succeed env (h @ [step_cmd s]) (butlast d)
      \<and> fst (run_steps env ss (h @ [step_cmd s])) =
         (if d = [] then None else step_error env ((h @ [step_cmd s]) @ map step_cmd (butlast d)) (last d))
      \<and> (fst (run_steps env ss (h @ [step_cmd s])) = None \<longrightarrow> r = [])" ..
    then obtain r where ih: "ss = d @ r
      \<and> snd (run_steps env ss (h @ [step_cmd s])) = (h @ [step_cmd s]) @ map step_cmd d
      \<and> steps_succeed env (h @ [step_cmd s]) (butlast d)
      \<and> fst (run_steps env ss (h @ [step_cmd s])) =
         (if d = [] then None else step_error env ((h @ [step_cmd s]) @ map step_cmd (butlast d)) (last d))
      \<and> (fst (run_steps env ss (h @ [step_cmd s])) = None \<longrightarrow> r = [])" ..
    from None have run: "run_steps env (s # ss) h = run_steps env ss (h @ [step_cmd s])"
      by simp
    show ?thesis
    proof (rule exI[of _ "s # d"], rule exI[of _ r], cases "d = []")
      case True
      with ih None show "s # ss = (s # d) @ r
        \<and> snd (run_steps env (s # ss) h) = h @ map step_cmd (s # d)
        \<and> steps_succeed env h (butlast (s # d))
        \<and> fst (run_steps env (s # ss) h) =
            (if s # d = [] then None else step_error env (h @ map step_cmd (butlast (s # d))) (last (s # d)))
        \<and> (fst (run_steps env (s # ss) h) = None \<longrightarrow> r = [])"
        unfolding run by auto
    next
      case False
      with ih None show "s # ss = (s # d) @ r
        \<and> snd (run_steps env (s # ss) h) = h @ map step_cmd (s # d)
        \<and> steps_succeed env h (butlast (s # d))
        \<and> fst (run_steps env (s # ss) h) =
            (if s # d = [] then None else step_error env (h @ map step_cmd (butlast (s # d))) (last (s # d)))
        \<and> (fst (run_steps env (s # ss) h) = None \<longrightarrow> r = [])"
        unfolding run by auto
    qed
  qed
qed

lemma RedeployVM_steps_nonempty: "RedeployVM_steps env opts h \<noteq> []"
  by (simp add: RedeployVM_steps_def steps_after_disk_def Let_def)

text \<open>
  Claim C4. The commands a redeploy issues are those of an initial part \<open>done\<close> of its
  steps, in the order of the steps. Every step of \<open>done\<close> but the last has succeeded, and
  the result of the call is the outcome of the last one: its wrapped error if it fails,
  in which case no command of a later step is issued. If the result is no error, no
  step is left: all steps have been issued, in exactly that order.
\<close>

theorem RedeployVM_first_failure:
  "\<exists>done rest. RedeployVM_steps env opts h = done @ rest \<and> done \<noteq> []
     \<and> snd (RedeployVM env opts h) = h @ map step_cmd done
     \<and> steps_succeed env h (butlast done)
     \<and> fst (RedeployVM env opts h) = step_error env (h @ map step_cmd (butlast done)) (last done)
     \<and> (fst (RedeployVM env opts h) = None \<longrightarrow> rest = [])"
proof -
  let ?ss = "RedeployVM_steps env opts h"
  from run_steps_first_failure[of ?ss env h] obtain d where "\<exists>r. ?ss = d @ r
     \<and> snd (run_steps env ?ss h) = h @ map step_cmd d
     \<and> steps_succeed env h (butlast d)
     \<and> fst (run_steps env ?ss h) =
         (if d = [] then None else step_error env (h @ map step_cmd (butlast d)) (last d))
     \<and> (fst (run_steps env ?ss h) = None \<longrightarrow> r = [])" ..
  then obtain r where dr: "?ss = d @ r"
    "snd (run_steps env ?ss h) = h @ map step_cmd d"
    "steps_succeed env h (butlast d)"
    "fst (run_steps env ?ss h) =
         (if d = [] then None else step_error env (h @ map step_cmd (butlast d)) (last d))"
    "fst (run_steps env ?ss h) = None \<longrightarrow> r = []"
    by (elim exE conjE)
  have ne: "d \<noteq> []"
  proof
    assume "d = []"
    with dr(4,5) have "r = []"
      by simp
    with \<open>d = []\<close> dr(1) RedeployVM_steps_nonempty[of env opts h] show False
      by simp
  qed
  show ?thesis
    by (rule exI[of _ d], rule exI[of _ r]) (use dr ne in \<open>simp add: RedeployVM_run_steps\<close>)
qed

text \<open>
  Two runs: every command accepted, with a vCPU override, and the disk snapshot refused
  after the lookup has found the VM's snapshot disk.
\<close>

lemma redeploy_accepted:
  "RedeployVM accepting (test_opts\<lparr>o_cpu := 2\<rparr>) [] =
     (None, map (\<lambda>c. \<lparr>Namespace = ''exp1'', Command = c, Columns = [], Filters = []\<rparr>)
        [''vm config clone vm1'', ''clear vm config migrate'', ''vm kill vm1'', ''vm flush'',
         ''vm config vcpus 2'', ''vm launch kvm vm1'', ''vm launch'', ''vm start vm1''])"
  by (simp add: RedeployVM_def flush_def issue_def andThen_def accepting_def test_opts_def fmt_d_def
      fmt_nat.simps NewNamespacedCommand_def NewCommand_def Let_def)

lemma redeploy_snapshot_refused:
  "RedeployVM snapshot_refusing inject_opts [] =
     (Some (Wrapf ''snapshotting disk for VM vm1 in namespace exp1'' (Errorf ''no space left'')),
      [\<lparr>Namespace = ''exp1'', Command = ''vm config clone vm1'', Columns = [], Filters = []\<rparr>,
       \<lparr>Namespace = ''exp1'', Command = ''clear vm config migrate'', Columns = [], Filters = []\<rparr>,
       \<lparr>Namespace = ''exp1'', Command = ''vm kill vm1'', Columns = [], Filters = []\<rparr>,
       \<lparr>Namespace = ''exp1'', Command = ''vm flush'', Columns = [], Filters = []\<rparr>,
       \<lparr>Namespace = ''exp1'', Command = ''vm config disk'', Columns = [''disks''], Filters = [''name=vm1'']\<rparr>,
       \<lparr>Namespace = ''exp1'', Command = ''disk snapshot /img/new.qc2 exp1_vm1_snapshot'', Columns = [],
         Filters = []\<rparr>])"
  by (simp add: RedeployVM_def redeployDisk_def flush_def issue_def andThen_def snapshot_refusing_def
      inject_opts_def test_opts_def row_get_def filepath_Base_def strings_Contains_def
      strings_HasPrefix_def NewNamespacedCommand_def NewCommand_def Let_def)

lemma redeploy_snapshot_steps:
  "map (Command \<circ> step_cmd) (RedeployVM_steps snapshot_refusing inject_opts []) =
     [''vm config clone vm1'', ''clear vm config migrate'', ''vm kill vm1'', ''vm flush'',
      ''vm config disk'', ''disk snapshot /img/new.qc2 exp1_vm1_snapshot'',
      ''disk inject exp1_vm1_snapshot:1 files /tmp/a:/etc/a'', ''vm config disk exp1_vm1_snapshot'',
      ''vm launch kvm vm1'', ''vm launch'', ''vm start vm1'']"
  by (simp add: RedeployVM_steps_def steps_before_disk_def disk_steps_def steps_after_disk_def
      snapshot_refusing_def inject_opts_def test_opts_def row_get_def filepath_Base_def
      strings_Contains_def strings_HasPrefix_def fmt_d_def fmt_nat.simps
      NewNamespacedCommand_def NewCommand_def Let_def)

theorem RedeployVM_first_failure_witness:
  "fst (RedeployVM accepting (test_opts\<lparr>o_cpu := 2\<rparr>) []) = None
   \<and> map Command (snd (RedeployVM accepting (test_opts\<lparr>o_cpu := 2\<rparr>) [])) =
       map (Command \<circ> step_cmd) (RedeployVM_steps accepting (test_opts\<lparr>o_cpu := 2\<rparr>) [])
   \<and> map Command (snd (RedeployVM accepting (test_opts\<lparr>o_cpu := 2\<rparr>) [])) =
       [''vm config clone vm1'', ''clear vm config migrate'', ''vm kill vm1'', ''vm flush'',
        ''vm config vcpus 2'', ''vm launch kvm vm1'', ''vm launch'', ''vm start vm1'']
   \<and> fst (RedeployVM snapshot_refusing inject_opts []) =
       Some (Wrapf ''snapshotting disk for VM vm1 in namespace exp1'' (Errorf ''no space left''))
   \<and> map Command (snd (RedeployVM snapshot_refusing inject_opts [])) =
       take 6 (map (Command \<circ> step_cmd) (RedeployVM_steps snapshot_refusing inject_opts []))"
proof -
  have a: "fst (RedeployVM accepting (test_opts\<lparr>o_cpu := 2\<rparr>) []) = None"
    by (simp add: redeploy_accepted)
  from RedeployVM_first_failure[of accepting "test_opts\<lparr>o_cpu := 2\<rparr>" "[]"] a
  have "snd (RedeployVM accepting (test_opts\<lparr>o_cpu := 2\<rparr>) []) =
          map step_cmd (RedeployVM_steps accepting (test_opts\<lparr>o_cpu := 2\<rparr>) [])"
    by auto
  then have b: "map Command (snd (RedeployVM accepting (test_opts\<lparr>o_cpu := 2\<rparr>) [])) =
       map (Command \<circ> step_cmd) (RedeployVM_steps accepting (test_opts\<lparr>o_cpu := 2\<rparr>) [])"
    by simp
  from a b show ?thesis
    by (simp add: redeploy_accepted redeploy_snapshot_refused redeploy_snapshot_steps)
qed

section \<open>WaitForC2Response\<close>

text \<open>
  With a positive timeout, a context that is never cancelled and a controller that keeps
  reporting the command with no response, the polling loop never returns: no pass finds
  the timer it has just created ready.
\<close>

lemma waitLoop_never_returns:
  assumes pending: "\<And>h. RunTabular env h cmd \<noteq> []
             \<and> row_get (hd (RunTabular env h cmd)) ''id'' = c2_commandID opts
             \<and> \<not> list_ex (\<lambda>row. row_get row ''responses'' \<noteq> ''0'') (RunTabular env h cmd)"
    and never: "ctx_Done_at ctx = None"
    and timeout: "select_delay rt < c2_timeout opts"
  shows "waitLoop env rt ctx opts cmd st = None"
proof (cases "waitLoop env rt ctx opts cmd st")
  case None
  then show ?thesis .
next
  case (Some y)
  have "env = env \<and> rt = rt \<and> ctx = ctx \<and> opts = opts \<and> cmd = cmd \<longrightarrow> False"
  proof (rule waitLoop.raw_induct[where P = "\<lambda>env' rt' ctx' opts' cmd' st' y'.
            env' = env \<and> rt' = rt \<and> ctx' = ctx \<and> opts' = opts \<and> cmd' = cmd \<longrightarrow> False",
          OF _ Some], goal_cases)
    case (1 f env' rt' ctx' opts' cmd' st' y')
    show ?case
    proof
      assume eq: "env' = env \<and> rt' = rt \<and> ctx' = ctx \<and> opts' = opts \<and> cmd' = cmd"
      obtain now h where st': "st' = (now, h)"
        by (cases st')
      from 1(2) eq pending[of h] never timeout
      have "f env rt ctx opts cmd
              (now + select_delay rt + latency rt + 1000000000, h @ [cmd]) = Some y'"
        by (simp add: st' Let_def)
      from 1(1)[OF this] show False
        by simp
    qed
  qed
  then show ?thesis
    by simp
qed

text \<open>
  Claim C2 at its own example: a timeout of 200 milliseconds and a controller that never
  reports completion. Whatever the queries take, and as long as the \<^verbatim>\<open>select\<close> looks at
  its channels less than 200 milliseconds after it has created the timer, the call does
  not return a timeout failure after 200 or 250 milliseconds; it does not return at all.
\<close>

theorem WaitForC2Response_never_times_out:
  assumes "select_delay rt < 200000000"
  shows "WaitForC2Response never_done rt background wait_opts h = None"
proof -
  have "waitLoop never_done rt background wait_opts cmd st = None" for cmd st
    by (rule waitLoop_never_returns)
       (use assms in \<open>simp_all add: never_done_def background_def wait_opts_def row_get_def\<close>)
  then show ?thesis
    by (simp add: WaitForC2Response_def Let_def)
qed

theorem WaitForC2Response_never_times_out_witness:
  "select_delay sluggish < 200000000
   \<and> WaitForC2Response never_done sluggish background wait_opts [] = None"
proof -
  have a: "select_delay sluggish < 200000000"
    by (simp add: sluggish_def)
  from WaitForC2Response_never_times_out[OF a, of "[]"] a show ?thesis
    by simp
qed

lemma wait_opts_simps:
  "c2_ns wait_opts = ''exp1''" "c2_commandID wait_opts = ''7''" "c2_timeout wait_opts = 200000000"
  by (simp_all add: wait_opts_def)

text \<open>
  Cancellation is reported as the context's error, which is not the timeout error, and
  no query follows it; a cancellation after 50 milliseconds is seen when the sleep of one
  second is over.
\<close>

lemma cancelled_after_the_sleep:
  "WaitForC2Response never_done instant cancelled_at_50ms wait_opts [] =
     Some (Inl Canceled, 1000000000,
           [\<lparr>Namespace = ''exp1'', Command = ''cc commands'', Columns = [''id'', ''responses''],
             Filters = [''id=7'']\<rparr>])"
proof -
  let ?cmd = "\<lparr>Namespace = ''exp1'', Command = ''cc commands'', Columns = [''id'', ''responses''],
             Filters = [''id=7'']\<rparr>"
  have second: "waitLoop never_done instant cancelled_at_50ms wait_opts ?cmd (1000000000, [?cmd]) =
      Some (Some Canceled, 1000000000, [?cmd])"
    by (subst waitLoop.simps) (simp add: cancelled_at_50ms_def wait_opts_def instant_def Let_def)
  have first: "waitLoop never_done instant cancelled_at_50ms wait_opts ?cmd (0, []) =
      waitLoop never_done instant cancelled_at_50ms wait_opts ?cmd (1000000000, [?cmd])"
    by (subst waitLoop.simps)
       (simp add: cancelled_at_50ms_def wait_opts_def never_done_def instant_def row_get_def Let_def)
  show ?thesis
    by (simp add: WaitForC2Response_def first second NewNamespacedCommand_def NewCommand_def
        wait_opts_simps Let_def)
qed

text \<open>The loop does return when the controller reports a response: here at the second query.\<close>

lemma completed_at_the_second_poll:
  "WaitForC2Response done_later instant background wait_opts [] =
     Some (Inr ''ok'', 1000000000,
           [\<lparr>Namespace = ''exp1'', Command = ''cc commands'', Columns = [''id'', ''responses''],
             Filters = [''id=7'']\<rparr>,
            \<lparr>Namespace = ''exp1'', Command = ''cc commands'', Columns = [''id'', ''responses''],
             Filters = [''id=7'']\<rparr>,
            \<lparr>Namespace = ''exp1'', Command = ''cc response 7 raw'', Columns = [''id'', ''responses''],
             Filters = [''id=7'']\<rparr>])"
proof -
  let ?cmd = "\<lparr>Namespace = ''exp1'', Command = ''cc commands'', Columns = [''id'', ''responses''],
             Filters = [''id=7'']\<rparr>"
  have second: "waitLoop done_later instant background wait_opts ?cmd (1000000000, [?cmd]) =
      Some (None, 1000000000, [?cmd, ?cmd])"
    by (subst waitLoop.simps)
       (simp add: background_def wait_opts_simps done_later_def instant_def row_get_def Let_def)
  have first: "waitLoop done_later instant background wait_opts ?cmd (0, []) =
      waitLoop done_later instant background wait_opts ?cmd (1000000000, [?cmd])"
    by (subst waitLoop.simps)
       (simp add: background_def wait_opts_simps done_later_def instant_def row_get_def Let_def)
  show ?thesis
    by (simp add: WaitForC2Response_def first second NewNamespacedCommand_def NewCommand_def
        wait_opts_simps Let_def)
       (simp add: done_later_def test_env_def instant_def)
qed

end
